theory Spec2Isabelle
  imports Main "HOL-Library.Char_ord" "HOL-Library.List_Lexorder" "HOL-Library.AList"
begin

section \<open>Python values and the library functions the scripts call\<close>

text \<open>
  The scripts under \<^verbatim>\<open>data_collection/\<close> handle JSON values throughout: a ledger line
  is parsed by \<^verbatim>\<open>json.loads\<close>, a fetch result is what \<^verbatim>\<open>page.evaluate\<close> hands back, a
  ledger record is a dict that \<^verbatim>\<open>json.dumps\<close> serialises. One datatype covers them. An
  object is its list of items in dict order (keys distinct, as in a Python dict). A float
  is kept as mantissa and binary exponent; the scripts only ever test it for truth.
\<close>

datatype json =
    JNull
  | JBool bool
  | JInt int
  | JFloat int int
  | JStr string
  | JList "json list"
  | JObj "(string \<times> json) list"

text \<open>Exceptions are values. \<open>str_exn\<close> is Python's \<^verbatim>\<open>str(e)\<close>.\<close>

datatype py_exn =
    JSONDecodeError
  | AttributeError string
  | TypeError string
  | RuntimeError string
  | FileNotFoundError string
  | SystemExit string
  | OSError string
  | UnicodeDecodeError
  | PlaywrightError string

fun str_exn :: "py_exn \<Rightarrow> string" where
  "str_exn JSONDecodeError = ''Expecting value''"
| "str_exn (AttributeError m) = m"
| "str_exn (TypeError m) = m"
| "str_exn (RuntimeError m) = m"
| "str_exn (FileNotFoundError m) = m"
| "str_exn (SystemExit m) = m"
| "str_exn (OSError m) = m"
| "str_exn UnicodeDecodeError = [CHR 0x27] @ ''utf-8'' @ [CHR 0x27] @ '' codec can'' @ [CHR 0x27] @ ''t decode bytes''"
| "str_exn (PlaywrightError m) = m"

text \<open>Python's truth value of a JSON value (\<^verbatim>\<open>if x\<close>, \<^verbatim>\<open>not x\<close>, \<^verbatim>\<open>x or y\<close>).\<close>

fun truthy :: "json \<Rightarrow> bool" where
  "truthy JNull = False"
| "truthy (JBool b) = b"
| "truthy (JInt n) = (n \<noteq> 0)"
| "truthy (JFloat m e) = (m \<noteq> 0)"
| "truthy (JStr s) = (s \<noteq> [])"
| "truthy (JList xs) = (xs \<noteq> [])"
| "truthy (JObj kvs) = (kvs \<noteq> [])"

definition py_or :: "json \<Rightarrow> json \<Rightarrow> json" where
  "py_or a b = (if truthy a then a else b)"

fun type_name :: "json \<Rightarrow> string" where
  "type_name JNull = ''NoneType''"
| "type_name (JBool b) = ''bool''"
| "type_name (JInt n) = ''int''"
| "type_name (JFloat m e) = ''float''"
| "type_name (JStr s) = ''str''"
| "type_name (JList xs) = ''list''"
| "type_name (JObj kvs) = ''dict''"

text \<open>
  \<^verbatim>\<open>obj.get(key, default)\<close>: only a dict has \<^verbatim>\<open>get\<close>; on any other value the attribute
  lookup raises \<^verbatim>\<open>AttributeError\<close>. \<^verbatim>\<open>obj.get(key)\<close> is \<open>py_get obj key JNull\<close>.
\<close>

fun py_get :: "json \<Rightarrow> string \<Rightarrow> json \<Rightarrow> py_exn + json" where
  "py_get (JObj kvs) k d = Inr (case map_of kvs k of None \<Rightarrow> d | Some v \<Rightarrow> v)"
| "py_get v k d =
     Inl (AttributeError ([CHR 0x27] @ type_name v @ [CHR 0x27] @ '' object has no attribute '' @
        [CHR 0x27] @ ''get'' @ [CHR 0x27]))"

text \<open>\<^verbatim>\<open>key in obj\<close> for a dict.\<close>

fun has_key :: "json \<Rightarrow> string \<Rightarrow> bool" where
  "has_key (JObj kvs) k = (map_of kvs k \<noteq> None)"
| "has_key v k = False"

text \<open>\<^verbatim>\<open>isinstance(v, dict)\<close>\<close>

definition is_dict :: "json \<Rightarrow> bool" where
  "is_dict v = (case v of JObj kvs \<Rightarrow> True | _ \<Rightarrow> False)"

text \<open>Decimal digits of a natural number and Python's \<^verbatim>\<open>str\<close> of an int.\<close>

fun digit_char :: "nat \<Rightarrow> char" where
  "digit_char n = char_of (48 + n mod 10)"

fun digits_nat :: "nat \<Rightarrow> string" where
  "digits_nat n = (if n < 10 then [digit_char n] else digits_nat (n div 10) @ [digit_char n])"

declare digits_nat.simps [simp del]

definition str_int :: "int \<Rightarrow> string" where
  "str_int i = (if i < 0 then CHR ''-'' # digits_nat (nat (- i)) else digits_nat (nat i))"

text \<open>
  The library functions the scripts import and this development does not re-implement:
  \<^verbatim>\<open>json.loads\<close> (\<open>None\<close> when it raises \<^verbatim>\<open>JSONDecodeError\<close>), \<^verbatim>\<open>json.dumps\<close> with
  \<^verbatim>\<open>ensure_ascii=False\<close>, \<^verbatim>\<open>repr\<close> of a float, list or dict (what \<^verbatim>\<open>str\<close> gives on them),
  and \<^verbatim>\<open>hashlib.sha256\<close> read as a number. Every theorem holds for whatever they compute.
\<close>

record pylib =
  json_loads :: "string \<Rightarrow> json option"
  json_dumps :: "json \<Rightarrow> string"
  py_repr :: "json \<Rightarrow> string"
  sha256_hex_int :: "string \<Rightarrow> nat"

text \<open>Python's \<^verbatim>\<open>str(x)\<close>.\<close>

fun py_str :: "pylib \<Rightarrow> json \<Rightarrow> string" where
  "py_str L JNull = ''None''"
| "py_str L (JBool b) = (if b then ''True'' else ''False'')"
| "py_str L (JInt n) = str_int n"
| "py_str L (JStr s) = s"
| "py_str L v = py_repr L v"

text \<open>
  \<^verbatim>\<open>str.isspace\<close> on one character and \<^verbatim>\<open>str.strip()\<close>. A \<open>char\<close> is a code point below
  256; the white space among them is TAB..CR, FS..US, SPACE, NEL and NBSP.
\<close>

definition is_space :: "char \<Rightarrow> bool" where
  "is_space c = (of_char c \<in> {9, 10, 11, 12, 13, 28, 29, 30, 31, 32, 133, 160 :: nat})"

definition strip :: "string \<Rightarrow> string" where
  "strip s = rev (dropWhile is_space (rev (dropWhile is_space s)))"

text \<open>\<^verbatim>\<open>line.rstrip("\n")\<close>: every trailing line feed goes.\<close>

definition rstrip_nl :: "string \<Rightarrow> string" where
  "rstrip_nl s = rev (dropWhile (\<lambda>c. c = CHR 0x0A) (rev s))"


section \<open>Work partitioning (\<^verbatim>\<open>run_website_enrichment_batches.py\<close>)\<close>

text \<open>
  \<^verbatim>\<open>
  def sha256_int(s):
      h = hashlib.sha256((s or "").encode("utf-8", errors="ignore")).hexdigest()
      return int(h, 16)
  def shard_for_company_id(company_id, shard_total):
      shard_total = max(1, int(shard_total))
      return sha256_int(company_id) % shard_total
  \<close>
\<close>

definition sha256_int :: "pylib \<Rightarrow> string \<Rightarrow> int" where
  "sha256_int L s = int (sha256_hex_int L s)"

definition shard_for_company_id :: "pylib \<Rightarrow> string \<Rightarrow> int \<Rightarrow> int" where
  "shard_for_company_id L company_id shard_total =
     (let shard_total = max 1 shard_total in sha256_int L company_id mod shard_total)"

text \<open>
  A row of \<^verbatim>\<open>companies.csv\<close>, with the three columns \<^verbatim>\<open>load_eligible_company_ids\<close> reads.
  A missing cell (pandas NaN) is \<open>None\<close>. The id is the cell's text, which is what
  \<^verbatim>\<open>astype(str)\<close> makes of it.
\<close>

record company_row =
  company_id :: string
  homepage_url :: "string option"
  homepage_url_raw :: "string option"

text \<open>\<^verbatim>\<open>urls["homepage_url"].fillna(urls["homepage_url_raw"])\<close>, on one row.\<close>

definition row_url :: "company_row \<Rightarrow> string option" where
  "row_url r = (case homepage_url r of Some u \<Rightarrow> Some u | None \<Rightarrow> homepage_url_raw r)"

text \<open>The rows with a URL, sorted by id (a stable sort), before any sharding.\<close>

definition eligible_urls :: "company_row list \<Rightarrow> company_row list" where
  "eligible_urls df = sort_key company_id (filter (\<lambda>r. row_url r \<noteq> None) df)"

definition invalid_shard_message :: "int \<Rightarrow> string" where
  "invalid_shard_message shard_total =
     ''Invalid shard: --shard-index must be in [0, '' @ str_int (shard_total - 1) @ '']''"

definition load_eligible_company_ids ::
  "pylib \<Rightarrow> company_row list \<Rightarrow> int \<Rightarrow> int \<Rightarrow> py_exn + string set" where
  "load_eligible_company_ids L df shard_index shard_total =
     (let urls = eligible_urls df;
          shard_total = max 1 shard_total
      in if shard_index < 0 \<or> shard_index \<ge> shard_total
         then Inl (SystemExit (invalid_shard_message shard_total))
         else
           (let urls = (if shard_total > 1
                        then filter (\<lambda>r. shard_for_company_id L (company_id r) shard_total = shard_index) urls
                        else urls)
            in Inr (set (map company_id urls))))"

text \<open>A stand-in hash for evaluating the definitions on concrete ids: the sum of the bytes.\<close>

definition byte_sum :: "string \<Rightarrow> nat" where
  "byte_sum s = sum_list (map of_char s)"

section \<open>The progress ledger\<close>

text \<open>
  A ledger file is the list of its lines, as \<^verbatim>\<open>for line in f\<close> yields them: each with its
  line feed, the last one possibly without. A path that does not exist is \<open>None\<close>.
\<close>

type_synonym ledger = "string list"

text \<open>
  What a scan gets from a file it opens with \<^verbatim>\<open>open(path, "r", encoding="utf-8")\<close> and
  reads with \<^verbatim>\<open>for line in f\<close>: the lines the loop is given, and whether the read then
  raises \<^verbatim>\<open>UnicodeDecodeError\<close>, because the bytes that follow do not decode (a multi-byte
  character cut short by a crash, for one). The decoding is strict, and it happens in the
  \<^verbatim>\<open>for\<close> statement, outside every \<^verbatim>\<open>try\<close> of the loop body.
\<close>

record text_file =
  tf_lines :: ledger
  tf_undecodable :: bool

subsection \<open>\<^verbatim>\<open>load_done_ids\<close> (\<^verbatim>\<open>extract_epo_publications_batch.py\<close>)\<close>




subsection \<open>\<^verbatim>\<open>read_done_company_ids\<close> (\<^verbatim>\<open>run_website_enrichment_batches.py\<close>)\<close>

text \<open>
  \<^verbatim>\<open>
  for line in f:
      if not line.strip():
          continue
      try:
          obj = json.loads(line)
      except Exception:
          continue
      cid = obj.get("company_id") or obj.get("id")
      if cid is not None:
          done.add(str(cid))
  \<close>
  Only \<^verbatim>\<open>json.loads\<close> is inside the \<^verbatim>\<open>try\<close>; the two \<^verbatim>\<open>get\<close> calls are not.
\<close>

definition company_or_id :: "json \<Rightarrow> py_exn + json" where
  "company_or_id obj =
     (case py_get obj ''company_id'' JNull of
        Inl e \<Rightarrow> Inl e
      | Inr c \<Rightarrow> if truthy c then Inr c else py_get obj ''id'' JNull)"

fun read_done_loop :: "pylib \<Rightarrow> ledger \<Rightarrow> string set \<Rightarrow> py_exn + string set" where
  "read_done_loop L [] done = Inr done"
| "read_done_loop L (line # rest) done =
     (if strip line = [] then read_done_loop L rest done
      else case json_loads L line of
        None \<Rightarrow> read_done_loop L rest done
      | Some obj \<Rightarrow>
          (case company_or_id obj of
             Inl e \<Rightarrow> Inl e
           | Inr cid \<Rightarrow>
               if cid \<noteq> JNull then read_done_loop L rest (insert (py_str L cid) done)
               else read_done_loop L rest done))"

definition read_done_company_ids :: "pylib \<Rightarrow> text_file option \<Rightarrow> py_exn + string set" where
  "read_done_company_ids L out_path =
     (case out_path of
        None \<Rightarrow> Inr {}
      | Some f \<Rightarrow>
          (case read_done_loop L (tf_lines f) {} of
             Inl e \<Rightarrow> Inl e
           | Inr done \<Rightarrow> if tf_undecodable f then Inl UnicodeDecodeError else Inr done))"








subsection \<open>The Retry Patcher's readers (\<^verbatim>\<open>retry_epo_publications_errors.py\<close>)\<close>

text \<open>The line feed, and \<^verbatim>\<open>str(obj.get("org_id") or "").strip()\<close>.\<close>

definition nl :: string where
  "nl = [CHR 0x0A]"

definition org_id_of :: "pylib \<Rightarrow> json \<Rightarrow> py_exn + string" where
  "org_id_of L obj =
     (case py_get obj ''org_id'' JNull of
        Inl e \<Rightarrow> Inl e
      | Inr v \<Rightarrow> Inr (strip (py_str L (py_or v (JStr [])))))"

text \<open>
  \<^verbatim>\<open>
  def load_error_records(inp):
      out = {}
      for line in f:
          if not line.strip():
              continue
          obj = json.loads(line)
          if not obj.get("error"):
              continue
          org_id = str(obj.get("org_id") or "").strip()
          if not org_id:
              continue
          out[org_id] = obj
      return out
  \<close>
  No \<^verbatim>\<open>try\<close> here: an exception leaves the function. The dict is an association list in
  insertion order; assigning to a key that is there keeps its place.
\<close>

fun load_error_loop ::
  "pylib \<Rightarrow> ledger \<Rightarrow> (string \<times> json) list \<Rightarrow> py_exn + (string \<times> json) list" where
  "load_error_loop L [] out = Inr out"
| "load_error_loop L (line # rest) out =
     (if strip line = [] then load_error_loop L rest out
      else case json_loads L line of
        None \<Rightarrow> Inl JSONDecodeError
      | Some obj \<Rightarrow>
          (case py_get obj ''error'' JNull of
             Inl e \<Rightarrow> Inl e
           | Inr err \<Rightarrow>
               if \<not> truthy err then load_error_loop L rest out
               else case org_id_of L obj of
                  Inl e \<Rightarrow> Inl e
                | Inr org_id \<Rightarrow>
                    if org_id = [] then load_error_loop L rest out
                    else load_error_loop L rest (AList.update org_id obj out)))"

definition load_error_records :: "pylib \<Rightarrow> ledger \<Rightarrow> py_exn + (string \<times> json) list" where
  "load_error_records L inp = load_error_loop L inp []"

text \<open>
  \<^verbatim>\<open>
  def rewrite_with_replacements(inp, out, replacements):
      with open(inp, "r") as f_in, open(out, "w") as f_out:
          for line in f_in:
              if not line.strip():
                  continue
              obj = json.loads(line)
              org_id = str(obj.get("org_id") or "").strip()
              if org_id and org_id in replacements:
                  f_out.write(json.dumps(replacements[org_id], ensure_ascii=False) + "\n")
              else:
                  f_out.write(line.rstrip("\n") + "\n")
  \<close>
  The loop, on the lines read: it gives the lines written so far and the exception that
  ended it, if one did. What reaches the output file on an exception stays there (the
  \<^verbatim>\<open>with\<close> block closes, and so flushes, both files).
\<close>

fun rewrite_lines ::
  "pylib \<Rightarrow> ledger \<Rightarrow> (string \<rightharpoonup> json) \<Rightarrow> ledger \<times> py_exn option" where
  "rewrite_lines L [] replacements = ([], None)"
| "rewrite_lines L (line # rest) replacements =
     (if strip line = [] then rewrite_lines L rest replacements
      else case json_loads L line of
        None \<Rightarrow> ([], Some JSONDecodeError)
      | Some obj \<Rightarrow>
          (case org_id_of L obj of
             Inl e \<Rightarrow> ([], Some e)
           | Inr org_id \<Rightarrow>
               (let written =
                      (if org_id \<noteq> [] \<and> replacements org_id \<noteq> None
                       then json_dumps L (the (replacements org_id)) @ nl
                       else rstrip_nl line @ nl);
                    (later, exn) = rewrite_lines L rest replacements
                in (written # later, exn))))"

text \<open>
  The rewrite in the specification's words, for comparison with the loop: the unit id of a
  line is the \<^verbatim>\<open>org_id\<close> of the record it parses to, as stripped text; a line whose unit id
  is a key of the replacement map becomes the serialised replacement, every other line
  passes through, ended by one line feed.
\<close>

definition line_unit_id :: "pylib \<Rightarrow> string \<Rightarrow> string" where
  "line_unit_id L line =
     (case json_loads L line of
        Some (JObj kvs) \<Rightarrow>
          strip (py_str L (py_or (case map_of kvs ''org_id'' of None \<Rightarrow> JNull | Some v \<Rightarrow> v) (JStr [])))
      | _ \<Rightarrow> [])"

definition spec_rewrite_line :: "pylib \<Rightarrow> (string \<rightharpoonup> json) \<Rightarrow> string \<Rightarrow> string" where
  "spec_rewrite_line L replacements line =
     (let u = line_unit_id L line
      in if u \<noteq> [] \<and> replacements u \<noteq> None then json_dumps L (the (replacements u)) @ nl
         else rstrip_nl line @ nl)"

text \<open>
  \<^verbatim>\<open>verify_publications_file\<close>: the counts printed after the patch. It parses every
  non-blank line and, like the two readers above, lets an exception through. The ids are
  kept as the list whose distinct elements the function counts.
\<close>

record pub_stats =
  stat_lines :: nat
  stat_parsed :: nat
  stat_org_ids :: "string list"
  stat_error_count :: nat
  stat_missing_pubs_key :: nat

fun verify_loop :: "pylib \<Rightarrow> ledger \<Rightarrow> pub_stats \<Rightarrow> py_exn + pub_stats" where
  "verify_loop L [] st = Inr st"
| "verify_loop L (line # rest) st =
     (if strip line = [] then verify_loop L rest st
      else case json_loads L line of
        None \<Rightarrow> Inl JSONDecodeError
      | Some obj \<Rightarrow>
          (case py_get obj ''org_id'' JNull of
             Inl e \<Rightarrow> Inl e
           | Inr oid \<Rightarrow>
               verify_loop L rest
                 (st\<lparr> stat_lines := stat_lines st + 1,
                      stat_parsed := stat_parsed st + 1,
                      stat_org_ids := (if oid \<noteq> JNull then stat_org_ids st @ [py_str L oid]
                                       else stat_org_ids st),
                      stat_error_count := (case py_get obj ''error'' JNull of
                                             Inr e \<Rightarrow> if truthy e then stat_error_count st + 1
                                                      else stat_error_count st
                                           | Inl x \<Rightarrow> stat_error_count st),
                      stat_missing_pubs_key := (if has_key obj ''publications''
                                                then stat_missing_pubs_key st
                                                else stat_missing_pubs_key st + 1) \<rparr>)))"

definition verify_publications_file :: "pylib \<Rightarrow> ledger \<Rightarrow> py_exn + pub_stats" where
  "verify_publications_file L pub_file =
     verify_loop L pub_file
       \<lparr> stat_lines = 0, stat_parsed = 0, stat_org_ids = [], stat_error_count = 0,
         stat_missing_pubs_key = 0 \<rparr>"

section \<open>Paginated fetching\<close>

text \<open>
  The remote side is out of scope: a call of \<^verbatim>\<open>page.evaluate\<close> either raises or hands back
  the value of the JavaScript \<^verbatim>\<open>fetch\<close> wrapper, \<^verbatim>\<open>{ok, status, data}\<close> or
  \<^verbatim>\<open>{ok: false, error}\<close>. A run of the program sees some sequence of such outcomes, one per
  call; the functions below consume that sequence from the front and give back the rest.
  When the sequence runs out before the loop has ended the result is \<open>None\<close>: the program
  would still be waiting for a response. Every call is logged with the continuation token
  it sent, every session refresh too. The polite delays (\<^verbatim>\<open>time.sleep\<close>) change no value and
  are left out.
\<close>

type_synonym outcome = "py_exn + json"

datatype page_event = Launch | Evaluate string json | Reload

text \<open>
  \<^verbatim>\<open>list.extend(x)\<close>: a list gives its items, a string its characters, a dict its keys;
  anything else is not iterable.
\<close>

fun py_extend :: "json list \<Rightarrow> json \<Rightarrow> py_exn + json list" where
  "py_extend acc (JList xs) = Inr (acc @ xs)"
| "py_extend acc (JStr s) = Inr (acc @ map (\<lambda>c. JStr [c]) s)"
| "py_extend acc (JObj kvs) = Inr (acc @ map (\<lambda>kv. JStr (fst kv)) kvs)"
| "py_extend acc v =
     Inl (TypeError ([CHR 0x27] @ type_name v @ [CHR 0x27] @ '' object is not iterable''))"

subsection \<open>\<^verbatim>\<open>fetch_publications_for_entity\<close> (\<^verbatim>\<open>extract_epo_publications_batch.py\<close>)\<close>

text \<open>
  \<^verbatim>\<open>
  all_pubs = []; token = ""
  while True:
      payload = {"nextPageToken": token, ...}
      try:
          result = page.evaluate(...)
          if not result.get("ok"):
              return {"org_id": org_id, "name": name, "error": True,
                      "http_status": result.get("status"), "message": result.get("error")}
          data = result.get("data", {})
          pubs = data.get("publications", [])
          all_pubs.extend(pubs)
          token = data.get("nextPageToken", "")
          if not token or not pubs:
              break
      except Exception as e:
          return {"org_id": org_id, "name": name, "error": True, "message": str(e)}
      time.sleep(0.2)
  return {"org_id": org_id, "name": name, "publications": all_pubs,
          "publication_count": len(all_pubs)}
  \<close>
  One pass through the \<^verbatim>\<open>try\<close> body either raises, returns the error record, leaves the
  loop, or goes round again with a new token.
\<close>

datatype page_step = Return json | Break "json list" | Continue "json list" json

definition entity_page :: "string \<Rightarrow> json \<Rightarrow> json list \<Rightarrow> json \<Rightarrow> py_exn + page_step" where
  "entity_page org_id name all_pubs result =
     (case py_get result ''ok'' JNull of
        Inl e \<Rightarrow> Inl e
      | Inr ok \<Rightarrow>
          if \<not> truthy ok then
            (case py_get result ''status'' JNull of
               Inl e \<Rightarrow> Inl e
             | Inr status \<Rightarrow>
                 (case py_get result ''error'' JNull of
                    Inl e \<Rightarrow> Inl e
                  | Inr err \<Rightarrow>
                      Inr (Return (JObj [(''org_id'', JStr org_id), (''name'', name),
                                         (''error'', JBool True), (''http_status'', status),
                                         (''message'', err)]))))
          else
            (case py_get result ''data'' (JObj []) of
               Inl e \<Rightarrow> Inl e
             | Inr data \<Rightarrow>
                 (case py_get data ''publications'' (JList []) of
                    Inl e \<Rightarrow> Inl e
                  | Inr pubs \<Rightarrow>
                      (case py_extend all_pubs pubs of
                         Inl e \<Rightarrow> Inl e
                       | Inr all_pubs' \<Rightarrow>
                           (case py_get data ''nextPageToken'' (JStr []) of
                              Inl e \<Rightarrow> Inl e
                            | Inr token \<Rightarrow>
                                if \<not> truthy token \<or> \<not> truthy pubs then Inr (Break all_pubs')
                                else Inr (Continue all_pubs' token))))))"

definition entity_error_record :: "string \<Rightarrow> json \<Rightarrow> py_exn \<Rightarrow> json" where
  "entity_error_record org_id name e =
     JObj [(''org_id'', JStr org_id), (''name'', name), (''error'', JBool True),
           (''message'', JStr (str_exn e))]"

definition entity_success_record :: "string \<Rightarrow> json \<Rightarrow> json list \<Rightarrow> json" where
  "entity_success_record org_id name all_pubs =
     JObj [(''org_id'', JStr org_id), (''name'', name), (''publications'', JList all_pubs),
           (''publication_count'', JInt (int (length all_pubs)))]"

fun fetch_entity_loop ::
  "outcome list \<Rightarrow> string \<Rightarrow> json \<Rightarrow> json \<Rightarrow> json list \<Rightarrow> page_event list \<Rightarrow>
     (json \<times> outcome list \<times> page_event list) option" where
  "fetch_entity_loop [] org_id name token all_pubs log = None"
| "fetch_entity_loop (r # rest) org_id name token all_pubs log =
     (let log = log @ [Evaluate org_id token] in
      case (case r of Inl e \<Rightarrow> Inl e | Inr result \<Rightarrow> entity_page org_id name all_pubs result) of
        Inl e \<Rightarrow> Some (entity_error_record org_id name e, rest, log)
      | Inr (Return record) \<Rightarrow> Some (record, rest, log)
      | Inr (Break all_pubs') \<Rightarrow> Some (entity_success_record org_id name all_pubs', rest, log)
      | Inr (Continue all_pubs' token') \<Rightarrow> fetch_entity_loop rest org_id name token' all_pubs' log)"

definition fetch_publications_for_entity ::
  "outcome list \<Rightarrow> string \<Rightarrow> json \<Rightarrow> (json \<times> outcome list \<times> page_event list) option" where
  "fetch_publications_for_entity page org_id name =
     fetch_entity_loop page org_id name (JStr []) [] []"

subsection \<open>\<^verbatim>\<open>fetch_all_publications\<close> (\<^verbatim>\<open>retry_epo_publications_errors.py\<close>)\<close>

text \<open>
  \<^verbatim>\<open>
  res = page.evaluate(_js_fetch_publications(payload_json))
  if not isinstance(res, dict) or not res.get("ok"):
      last_status = res.get("status") if isinstance(res, dict) else None
      last_err = (res.get("error") if isinstance(res, dict) else None) or (
          f"HTTP {last_status}" if last_status else "Fetch failed")
      raise RuntimeError(last_err)
  data = res.get("data") or {}
  if total_from_api is None and isinstance(data.get("total"), int):
      total_from_api = int(data["total"])
  batch = data.get("publications") or []
  if batch:
      pubs.extend(batch)
  token = data.get("nextPageToken") or ""
  if not token:
      break
  \<close>
  An exception of this body reaches the \<^verbatim>\<open>except\<close> of the attempt. It comes with the
  value assigned to \<^verbatim>\<open>last_status\<close> on the way, if the first branch ran. A bool is an
  \<^verbatim>\<open>int\<close> for \<^verbatim>\<open>isinstance\<close>.
\<close>

definition as_py_int :: "json \<Rightarrow> int option" where
  "as_py_int v = (case v of JInt n \<Rightarrow> Some n | JBool b \<Rightarrow> Some (if b then 1 else 0) | _ \<Rightarrow> None)"

datatype retry_step = Done "json list" "int option" | More "json list" "int option" json

definition retry_page ::
  "pylib \<Rightarrow> json list \<Rightarrow> int option \<Rightarrow> json \<Rightarrow> (py_exn \<times> json option) + retry_step" where
  "retry_page L pubs total_from_api res =
     (if \<not> is_dict res then Inl (RuntimeError ''Fetch failed'', Some JNull)
      else case py_get res ''ok'' JNull of
        Inl e \<Rightarrow> Inl (e, None)
      | Inr ok \<Rightarrow>
          if \<not> truthy ok then
            (case py_get res ''status'' JNull of
               Inl e \<Rightarrow> Inl (e, None)
             | Inr last_status \<Rightarrow>
                 (case py_get res ''error'' JNull of
                    Inl e \<Rightarrow> Inl (e, Some last_status)
                  | Inr err \<Rightarrow>
                      Inl (RuntimeError
                             (if truthy err then py_str L err
                              else if truthy last_status then ''HTTP '' @ py_str L last_status
                              else ''Fetch failed''),
                           Some last_status)))
          else
            (case py_get res ''data'' JNull of
               Inl e \<Rightarrow> Inl (e, None)
             | Inr d \<Rightarrow>
                 (let data = py_or d (JObj []) in
                  case (if total_from_api = None
                        then (case py_get data ''total'' JNull of
                                Inl e \<Rightarrow> Inl e
                              | Inr t \<Rightarrow> Inr (as_py_int t))
                        else Inr total_from_api) of
                    Inl e \<Rightarrow> Inl (e, None)
                  | Inr total_from_api \<Rightarrow>
                      (case py_get data ''publications'' JNull of
                         Inl e \<Rightarrow> Inl (e, None)
                       | Inr b \<Rightarrow>
                           (let batch = py_or b (JList []) in
                            case (if truthy batch then py_extend pubs batch else Inr pubs) of
                              Inl e \<Rightarrow> Inl (e, None)
                            | Inr pubs' \<Rightarrow>
                                (case py_get data ''nextPageToken'' JNull of
                                   Inl e \<Rightarrow> Inl (e, None)
                                 | Inr tk \<Rightarrow>
                                     (let token = py_or tk (JStr []) in
                                      if \<not> truthy token then Inr (Done pubs' total_from_api)
                                      else Inr (More pubs' total_from_api token))))))))"

text \<open>The \<^verbatim>\<open>while True\<close> of one attempt.\<close>

fun attempt_loop ::
  "pylib \<Rightarrow> outcome list \<Rightarrow> string \<Rightarrow> json \<Rightarrow> json list \<Rightarrow> int option \<Rightarrow> page_event list \<Rightarrow>
     (((py_exn \<times> json option) + (json list \<times> int option)) \<times> outcome list \<times> page_event list) option"
  where
  "attempt_loop L [] org_id token pubs total_from_api log = None"
| "attempt_loop L (r # rest) org_id token pubs total_from_api log =
     (let log = log @ [Evaluate org_id token] in
      case (case r of Inl e \<Rightarrow> Inl (e, None) | Inr res \<Rightarrow> retry_page L pubs total_from_api res) of
        Inl x \<Rightarrow> Some (Inl x, rest, log)
      | Inr (Done pubs' total') \<Rightarrow> Some (Inr (pubs', total'), rest, log)
      | Inr (More pubs' total' token') \<Rightarrow> attempt_loop L rest org_id token' pubs' total' log)"

text \<open>
  What \<^verbatim>\<open>fetch_all_publications\<close> returns, one constructor for each of the two dicts of
  its docstring: \<^verbatim>\<open>{"ok": True, "publications", "total", "attempt"}\<close> and
  \<^verbatim>\<open>{"ok": False, "error", "http_status", "attempt"}\<close>.
\<close>

datatype fetch_result =
    FetchOk "json list" "int option" int
  | FetchFailed string json int

text \<open>
  \<^verbatim>\<open>
  last_err = None; last_status = None
  for attempt in range(1, max_attempts + 1):
      token = ""; pubs = []; total_from_api = None
      try:
          while True: ...
          return {"ok": True, "publications": pubs, "total": total_from_api, "attempt": attempt}
      except Exception as e:
          last_err = str(e)
          if attempt < max_attempts:
              page.reload(...)          # or page.goto(...), errors ignored
              time.sleep(...)
              continue
          return {"ok": False, "error": last_err or "Fetch failed",
                  "http_status": last_status, "attempt": attempt}
  return {"ok": False, "error": last_err or "Fetch failed",
          "http_status": last_status, "attempt": max_attempts}
  \<close>
  \<open>fetch_attempts\<close> is the \<^verbatim>\<open>for\<close> loop from \<open>attempt\<close> on; \<^verbatim>\<open>last_err\<close> is \<open>None\<close> until an
  attempt has failed.
\<close>

definition or_fetch_failed :: "string option \<Rightarrow> string" where
  "or_fetch_failed last_err =
     (case last_err of None \<Rightarrow> ''Fetch failed'' | Some m \<Rightarrow> if m = [] then ''Fetch failed'' else m)"

function fetch_attempts ::
  "pylib \<Rightarrow> int \<Rightarrow> string \<Rightarrow> int \<Rightarrow> outcome list \<Rightarrow> string option \<Rightarrow> json \<Rightarrow> page_event list \<Rightarrow>
     (fetch_result \<times> outcome list \<times> page_event list) option" where
  "fetch_attempts L max_attempts org_id attempt page last_err last_status log =
     (if attempt > max_attempts
      then Some (FetchFailed (or_fetch_failed last_err) last_status max_attempts, page, log)
      else case attempt_loop L page org_id (JStr []) [] None log of
        None \<Rightarrow> None
      | Some (Inr (pubs, total_from_api), page', log') \<Rightarrow>
          Some (FetchOk pubs total_from_api attempt, page', log')
      | Some (Inl (e, status), page', log') \<Rightarrow>
          (let last_status = (case status of None \<Rightarrow> last_status | Some s \<Rightarrow> s);
               last_err = Some (str_exn e)
           in if attempt < max_attempts
              then fetch_attempts L max_attempts org_id (attempt + 1) page' last_err last_status
                     (log' @ [Reload])
              else Some (FetchFailed (or_fetch_failed last_err) last_status attempt, page', log')))"
  by pat_completeness auto
termination
  by (relation "measure (\<lambda>(L, max_attempts, org_id, attempt, rest). nat (max_attempts - attempt))") auto

declare fetch_attempts.simps [simp del]

definition fetch_all_publications ::
  "pylib \<Rightarrow> outcome list \<Rightarrow> string \<Rightarrow> int \<Rightarrow> (fetch_result \<times> outcome list \<times> page_event list) option"
  where
  "fetch_all_publications L page org_id max_attempts =
     fetch_attempts L max_attempts org_id 1 page None JNull []"

subsection \<open>Responses and runs, for stating what the paginators do\<close>

text \<open>
  A successful response as the JavaScript wrapper hands it back: HTTP 200 with a page of
  items and the token of the next page (empty on the last page). A call has failed when
  \<^verbatim>\<open>page.evaluate\<close> raised or its result is not a dict with a true \<^verbatim>\<open>ok\<close>.
\<close>

definition ok_response :: "json list \<Rightarrow> string \<Rightarrow> json" where
  "ok_response items token =
     JObj [(''ok'', JBool True), (''status'', JInt 200),
           (''data'', JObj [(''publications'', JList items), (''nextPageToken'', JStr token)])]"

definition page_outcome :: "json list \<times> string \<Rightarrow> outcome" where
  "page_outcome p = Inr (ok_response (fst p) (snd p))"

definition reports_failure :: "json \<Rightarrow> bool" where
  "reports_failure res =
     (case res of
        JObj kvs \<Rightarrow> \<not> truthy (case map_of kvs ''ok'' of None \<Rightarrow> JNull | Some v \<Rightarrow> v)
      | _ \<Rightarrow> True)"

definition failed_call :: "outcome \<Rightarrow> bool" where
  "failed_call r = (case r of Inl e \<Rightarrow> True | Inr res \<Rightarrow> reports_failure res)"

text \<open>
  One attempt of the Retry Patcher as a run: the pages it fetched, each with a token for
  the next, and then either the call that failed or the last page. Its responses, and the
  calls it makes: the first with the empty token, each later one with the token of the
  page before.
\<close>

definition failed_attempt :: "(json list \<times> string) list \<times> outcome \<Rightarrow> outcome list" where
  "failed_attempt a = map page_outcome (fst a) @ [snd a]"

definition attempt_events :: "string \<Rightarrow> (json list \<times> string) list \<Rightarrow> page_event list" where
  "attempt_events org_id pages =
     Evaluate org_id (JStr []) # map (\<lambda>p. Evaluate org_id (JStr (snd p))) pages"

text \<open>The attempts a log shows for a unit: its calls with the empty token.\<close>

definition attempts_in :: "string \<Rightarrow> page_event list \<Rightarrow> int" where
  "attempts_in org_id log = int (length (filter (\<lambda>e. e = Evaluate org_id (JStr [])) log))"

definition reloads_in :: "page_event list \<Rightarrow> int" where
  "reloads_in log = int (length (filter (\<lambda>e. e = Reload) log))"


section \<open>The Retry Patcher's \<^verbatim>\<open>main\<close> (\<^verbatim>\<open>retry_epo_publications_errors.py\<close>)\<close>

subsection \<open>Files and paths\<close>

text \<open>
  The file system maps a path to the lines of the file there. The operations \<^verbatim>\<open>main\<close>
  performs on it are logged in order. \<^verbatim>\<open>os.replace\<close> is the atomic rename: the source path
  goes, the destination holds what the source held; renaming a path onto itself changes
  nothing. \<^verbatim>\<open>shutil.copy2\<close> refuses to copy a file onto itself.
\<close>

type_synonym path = string
type_synonym filesys = "path \<rightharpoonup> ledger"

datatype fs_op = OpWrite path | OpCopy path path | OpReplace path path

definition os_replace :: "filesys \<Rightarrow> path \<Rightarrow> path \<Rightarrow> py_exn + filesys" where
  "os_replace fs src dst =
     (case fs src of
        None \<Rightarrow> Inl (FileNotFoundError src)
      | Some content \<Rightarrow> if src = dst then Inr fs else Inr ((fs(src := None))(dst \<mapsto> content)))"

definition shutil_copy2 :: "filesys \<Rightarrow> path \<Rightarrow> path \<Rightarrow> py_exn + filesys" where
  "shutil_copy2 fs src dst =
     (case fs src of
        None \<Rightarrow> Inl (FileNotFoundError src)
      | Some content \<Rightarrow> if src = dst then Inl (OSError ''same file'') else Inr (fs(dst \<mapsto> content)))"

text \<open>
  \<^verbatim>\<open>rewrite_with_replacements\<close> on the file system. \<^verbatim>\<open>open(inp, "r")\<close> comes first and
  raises when the input is missing; \<^verbatim>\<open>open(out, "w")\<close> then creates or truncates the output,
  before the first line is read (the input is read lazily, so an output path equal to the
  input path leaves nothing to read). Opening the output and writing to it are taken to
  succeed: the exceptions of this model are those of the input side, a missing file and a
  line that does not parse.
\<close>

definition rewrite_with_replacements ::
  "pylib \<Rightarrow> filesys \<Rightarrow> path \<Rightarrow> path \<Rightarrow> (string \<rightharpoonup> json) \<Rightarrow> (py_exn + unit) \<times> filesys" where
  "rewrite_with_replacements L fs inp out replacements =
     (case fs inp of
        None \<Rightarrow> (Inl (FileNotFoundError inp), fs)
      | Some original \<Rightarrow>
          (let fs = fs(out \<mapsto> []);
               lines = (case fs inp of None \<Rightarrow> [] | Some ls \<Rightarrow> ls);
               (written, exn) = rewrite_lines L lines replacements;
               fs = fs(out \<mapsto> written)
           in (case exn of None \<Rightarrow> Inr () | Some e \<Rightarrow> Inl e, fs)))"

text \<open>
  \<^verbatim>\<open>pathlib\<close>: the name is the last component; the suffix starts at the last dot of the
  name unless that dot is its first or last character; the stem is the name without the
  suffix. Paths are in normal form with a non-empty name.
\<close>

definition path_name :: "path \<Rightarrow> string" where
  "path_name p = rev (takeWhile (\<lambda>c. c \<noteq> CHR ''/'') (rev p))"

definition path_dir :: "path \<Rightarrow> string" where
  "path_dir p = take (length p - length (path_name p)) p"

definition path_suffix :: "path \<Rightarrow> string" where
  "path_suffix p =
     (let name = path_name p; ext = takeWhile (\<lambda>c. c \<noteq> CHR ''.'') (rev name)
      in if CHR ''.'' \<notin> set name \<or> ext = [] \<or> length ext + 1 = length name then []
         else CHR ''.'' # rev ext)"

definition path_stem :: "path \<Rightarrow> string" where
  "path_stem p = (let name = path_name p in take (length name - length (path_suffix p)) name)"

text \<open>\<^verbatim>\<open>inp.with_name(f"{inp.stem}_patched{inp.suffix}")\<close>\<close>

definition patched_path :: "path \<Rightarrow> path" where
  "patched_path inp = path_dir inp @ path_stem inp @ ''_patched'' @ path_suffix inp"

text \<open>\<^verbatim>\<open>p.with_suffix(p.suffix + s)\<close> puts \<open>s\<close> after the name.\<close>

definition add_suffix :: "path \<Rightarrow> string \<Rightarrow> path" where
  "add_suffix p s = p @ s"

text \<open>The local time of the backup, and \<^verbatim>\<open>strftime('%Y%m%d-%H%M%S')\<close>.\<close>

record local_time =
  lt_year :: nat
  lt_month :: nat
  lt_day :: nat
  lt_hour :: nat
  lt_minute :: nat
  lt_second :: nat

definition pad2 :: "nat \<Rightarrow> string" where
  "pad2 n = [digit_char (n div 10), digit_char n]"

definition pad4 :: "nat \<Rightarrow> string" where
  "pad4 n = [digit_char (n div 1000), digit_char (n div 100), digit_char (n div 10), digit_char n]"

definition strftime_compact :: "local_time \<Rightarrow> string" where
  "strftime_compact t =
     pad4 (lt_year t) @ pad2 (lt_month t) @ pad2 (lt_day t) @ ''-'' @
     pad2 (lt_hour t) @ pad2 (lt_minute t) @ pad2 (lt_second t)"

text \<open>
  The clock: the UTC timestamp (ISO format) taken when a unit's retry has ended, and the
  local time when the backup is made.
\<close>

record clock =
  utc_iso :: "string \<Rightarrow> string"
  local_now :: local_time

subsection \<open>Retrying the failed units\<close>

record retry_args =
  arg_input :: path
  arg_output :: string
  arg_inplace :: bool
  arg_batch_size :: int
  arg_max_attempts :: int

text \<open>
  \<^verbatim>\<open>
  def chunks(items, n):
      for i in range(0, len(items), n):
          yield items[i : i + n]
  \<close>
  \<^verbatim>\<open>main\<close> calls it with \<^verbatim>\<open>max(1, args.batch_size)\<close>; a step of 0 would raise in \<^verbatim>\<open>range\<close>.
\<close>

function chunks :: "'a list \<Rightarrow> nat \<Rightarrow> 'a list list" where
  "chunks items n = (if items = [] \<or> n = 0 then [] else take n items # chunks (drop n items) n)"
  by pat_completeness auto
termination
  by (relation "measure (\<lambda>(items, n). length items)") auto

declare chunks.simps [simp del]

text \<open>
  The body of the loop over the ids of one batch, for one id:
  \<^verbatim>\<open>
  old = error_recs.get(org_id) or {}
  name = old.get("name"); role = old.get("role")
  res = fetch_all_publications(page, org_id, max_attempts=max(1, args.max_attempts), ...)
  ts = datetime.utcnow().isoformat() + "Z"
  if res.get("ok"):
      pubs = res.get("publications") or []
      total = res.get("total")
      replacements[org_id] = {"org_id": org_id, "name": name, "role": role,
          "total": int(total) if isinstance(total, int) else len(pubs),
          "publications": pubs, "publication_count": len(pubs),
          "extraction_timestamp": ts, "retried": True,
          "retry_attempts": int(res.get("attempt") or 1)}
  else:
      replacements[org_id] = {"org_id": org_id, "name": name, "role": role,
          "error": True, "http_status": res.get("http_status"),
          "message": res.get("error") or old.get("message") or "Fetch failed",
          "extraction_timestamp": ts, "retried": True,
          "retry_attempts": int(res.get("attempt") or args.max_attempts)}
  \<close>
\<close>

definition replacement_record ::
  "string \<Rightarrow> json \<Rightarrow> json \<Rightarrow> json \<Rightarrow> string \<Rightarrow> int \<Rightarrow> fetch_result \<Rightarrow> json" where
  "replacement_record org_id name role old_message ts args_max_attempts res =
     (case res of
        FetchOk pubs tot attempt \<Rightarrow>
          JObj [(''org_id'', JStr org_id), (''name'', name), (''role'', role),
                (''total'', JInt (case tot of Some t \<Rightarrow> t | None \<Rightarrow> int (length pubs))),
                (''publications'', JList pubs),
                (''publication_count'', JInt (int (length pubs))),
                (''extraction_timestamp'', JStr ts),
                (''retried'', JBool True),
                (''retry_attempts'', JInt (if attempt \<noteq> 0 then attempt else 1))]
      | FetchFailed err http_status attempt \<Rightarrow>
          JObj [(''org_id'', JStr org_id), (''name'', name), (''role'', role),
                (''error'', JBool True),
                (''http_status'', http_status),
                (''message'', (if err \<noteq> [] then JStr err
                               else py_or old_message (JStr ''Fetch failed''))),
                (''extraction_timestamp'', JStr ts),
                (''retried'', JBool True),
                (''retry_attempts'', JInt (if attempt \<noteq> 0 then attempt else args_max_attempts))])"

definition retry_one ::
  "pylib \<Rightarrow> clock \<Rightarrow> retry_args \<Rightarrow> (string \<times> json) list \<Rightarrow> string \<Rightarrow> outcome list \<Rightarrow>
     ((py_exn + json) \<times> outcome list \<times> page_event list) option" where
  "retry_one L clk args error_recs org_id page =
     (let old = py_or (case map_of error_recs org_id of None \<Rightarrow> JNull | Some r \<Rightarrow> r) (JObj []) in
      case py_get old ''name'' JNull of
        Inl e \<Rightarrow> Some (Inl e, page, [])
      | Inr name \<Rightarrow>
          (case py_get old ''role'' JNull of
             Inl e \<Rightarrow> Some (Inl e, page, [])
           | Inr role \<Rightarrow>
               (case fetch_all_publications L page org_id (max 1 (arg_max_attempts args)) of
                  None \<Rightarrow> None
                | Some (res, page', log) \<Rightarrow>
                    (case py_get old ''message'' JNull of
                       Inl e \<Rightarrow> Some (Inl e, page', log)
                     | Inr old_message \<Rightarrow>
                         Some (Inr (replacement_record org_id name role old_message
                                      (utc_iso clk org_id @ ''Z'') (arg_max_attempts args) res),
                               page', log)))))"

text \<open>
  The state of the retry loops: the replacements so far, the responses not yet consumed,
  the page events so far. An exception ends the run with the state it was raised in.
\<close>

record retry_state =
  st_replacements :: "string \<rightharpoonup> json"
  st_page :: "outcome list"
  st_events :: "page_event list"

fun retry_ids ::
  "pylib \<Rightarrow> clock \<Rightarrow> retry_args \<Rightarrow> (string \<times> json) list \<Rightarrow> string list \<Rightarrow> retry_state \<Rightarrow>
     (py_exn option \<times> retry_state) option" where
  "retry_ids L clk args error_recs [] st = Some (None, st)"
| "retry_ids L clk args error_recs (org_id # others) st =
     (case retry_one L clk args error_recs org_id (st_page st) of
        None \<Rightarrow> None
      | Some (Inl e, page', log) \<Rightarrow>
          Some (Some e, st\<lparr> st_page := page', st_events := st_events st @ log \<rparr>)
      | Some (Inr record, page', log) \<Rightarrow>
          retry_ids L clk args error_recs others
            (st\<lparr> st_replacements := (st_replacements st)(org_id \<mapsto> record),
                 st_page := page', st_events := st_events st @ log \<rparr>))"

text \<open>The loop over the batches: a fresh browser session for each.\<close>

fun retry_batches ::
  "pylib \<Rightarrow> clock \<Rightarrow> retry_args \<Rightarrow> (string \<times> json) list \<Rightarrow> string list list \<Rightarrow> retry_state \<Rightarrow>
     (py_exn option \<times> retry_state) option" where
  "retry_batches L clk args error_recs [] st = Some (None, st)"
| "retry_batches L clk args error_recs (batch # others) st =
     (case retry_ids L clk args error_recs batch (st\<lparr> st_events := st_events st @ [Launch] \<rparr>) of
        None \<Rightarrow> None
      | Some (Some e, st') \<Rightarrow> Some (Some e, st')
      | Some (None, st') \<Rightarrow> retry_batches L clk args error_recs others st')"

subsection \<open>Writing the patched file\<close>

text \<open>
  \<^verbatim>\<open>
  tmp_out = out.with_suffix(out.suffix + ".tmp")
  rewrite_with_replacements(inp, tmp_out, replacements)
  if args.inplace:
      backup = inp.with_suffix(inp.suffix + f".bak-{datetime.now().strftime('%Y%m%d-%H%M%S')}")
      shutil.copy2(inp, backup)
      os.replace(tmp_out, inp)
      final_path = inp
  else:
      os.replace(tmp_out, out)
      final_path = out
  stats = verify_publications_file(final_path)
  \<close>
  The result of a run: how it ended (an exception, or the statistics of the patched file),
  the file system it leaves, and the file operations it performed, in order.
\<close>

record patch_result =
  ended :: "py_exn + pub_stats"
  files :: filesys
  ops :: "fs_op list"

definition backup_path :: "clock \<Rightarrow> path \<Rightarrow> path" where
  "backup_path clk inp = add_suffix inp (''.bak-'' @ strftime_compact (local_now clk))"

definition verify_at :: "pylib \<Rightarrow> filesys \<Rightarrow> path \<Rightarrow> py_exn + pub_stats" where
  "verify_at L fs final_path =
     (case fs final_path of
        None \<Rightarrow> Inl (FileNotFoundError final_path)
      | Some lines \<Rightarrow> verify_publications_file L lines)"

definition write_patched ::
  "pylib \<Rightarrow> clock \<Rightarrow> bool \<Rightarrow> filesys \<Rightarrow> path \<Rightarrow> path \<Rightarrow> (string \<rightharpoonup> json) \<Rightarrow> patch_result" where
  "write_patched L clk inplace fs inp out replacements =
     (let tmp_out = add_suffix out ''.tmp'' in
      case rewrite_with_replacements L fs inp tmp_out replacements of
        (Inl e, fs1) \<Rightarrow> \<lparr> ended = Inl e, files = fs1, ops = [OpWrite tmp_out] \<rparr>
      | (Inr u, fs1) \<Rightarrow>
          if inplace then
            (let backup = backup_path clk inp in
             case shutil_copy2 fs1 inp backup of
               Inl e \<Rightarrow> \<lparr> ended = Inl e, files = fs1, ops = [OpWrite tmp_out] \<rparr>
             | Inr fs2 \<Rightarrow>
                 (case os_replace fs2 tmp_out inp of
                    Inl e \<Rightarrow> \<lparr> ended = Inl e, files = fs2,
                               ops = [OpWrite tmp_out, OpCopy inp backup] \<rparr>
                  | Inr fs3 \<Rightarrow>
                      \<lparr> ended = verify_at L fs3 inp, files = fs3,
                        ops = [OpWrite tmp_out, OpCopy inp backup, OpReplace tmp_out inp] \<rparr>))
          else
            (case os_replace fs1 tmp_out out of
               Inl e \<Rightarrow> \<lparr> ended = Inl e, files = fs1, ops = [OpWrite tmp_out] \<rparr>
             | Inr fs2 \<Rightarrow>
                 \<lparr> ended = verify_at L fs2 out, files = fs2,
                   ops = [OpWrite tmp_out, OpReplace tmp_out out] \<rparr>))"

text \<open>
  \<^verbatim>\<open>main\<close>, from the resolved input path on. A run that finds nothing to retry returns
  before any file is written (\<open>Inr None\<close>). The result also has the file system the run
  leaves, the file operations it performed and the state of the retry loops. \<open>None\<close>: the
  responses ran out.
\<close>

record main_result =
  mr_ended :: "py_exn + pub_stats option"
  mr_files :: filesys
  mr_ops :: "fs_op list"
  mr_state :: retry_state

definition retry_main ::
  "pylib \<Rightarrow> clock \<Rightarrow> retry_args \<Rightarrow> filesys \<Rightarrow> outcome list \<Rightarrow> main_result option" where
  "retry_main L clk args fs responses =
     (let inp = arg_input args;
          st0 = \<lparr> st_replacements = Map.empty, st_page = responses, st_events = [] \<rparr>
      in case fs inp of
        None \<Rightarrow>
          Some \<lparr> mr_ended = Inl (SystemExit (''Input file not found: '' @ inp)),
                 mr_files = fs, mr_ops = [], mr_state = st0 \<rparr>
      | Some lines \<Rightarrow>
          (let out = (if arg_output args \<noteq> [] then arg_output args else patched_path inp) in
           case load_error_records L lines of
             Inl e \<Rightarrow> Some \<lparr> mr_ended = Inl e, mr_files = fs, mr_ops = [], mr_state = st0 \<rparr>
           | Inr error_recs \<Rightarrow>
               (let error_ids = sort (map fst error_recs) in
                if error_ids = []
                then Some \<lparr> mr_ended = Inr None, mr_files = fs, mr_ops = [], mr_state = st0 \<rparr>
                else case retry_batches L clk args error_recs
                            (chunks error_ids (nat (max 1 (arg_batch_size args)))) st0 of
                  None \<Rightarrow> None
                | Some (Some e, st) \<Rightarrow>
                    Some \<lparr> mr_ended = Inl e, mr_files = fs, mr_ops = [], mr_state = st \<rparr>
                | Some (None, st) \<Rightarrow>
                    (let r = write_patched L clk (arg_inplace args) fs inp out (st_replacements st)
                     in Some \<lparr> mr_ended = (case ended r of Inl e \<Rightarrow> Inl e | Inr stats \<Rightarrow> Inr (Some stats)),
                               mr_files = files r, mr_ops = ops r, mr_state = st \<rparr>))))"


section \<open>The batch orchestrator's \<^verbatim>\<open>main\<close> (\<^verbatim>\<open>run_website_enrichment_batches.py\<close>)\<close>

text \<open>
  \<^verbatim>\<open>read_company_ids_file\<close>: the stripped non-blank lines of the allow-list file.
\<close>

definition read_company_ids_file :: "string list \<Rightarrow> string set" where
  "read_company_ids_file lines = set (filter (\<lambda>l. l \<noteq> []) (map strip lines))"

text \<open>
  The batch itself runs in a subprocess (\<^verbatim>\<open>enrich_websites.py --resume --limit N\<close>), which
  does all the fetching and appends to the ledger. It is a parameter here: from the ledger
  and the limit to the ledger it leaves and its exit code. \<^verbatim>\<open>run_one_batch\<close> raises on a
  non-zero exit code; the counts it reads off the log are only displayed.
\<close>

type_synonym subprocess = "text_file option \<Rightarrow> int \<Rightarrow> text_file option \<times> int"

definition run_one_batch ::
  "subprocess \<Rightarrow> text_file option \<Rightarrow> int \<Rightarrow> (py_exn + unit) \<times> text_file option" where
  "run_one_batch enrich out_path batch_limit =
     (case enrich out_path batch_limit of
        (out_path', rc) \<Rightarrow>
          if rc \<noteq> 0 then (Inl (RuntimeError (''Batch failed with exit code '' @ str_int rc)), out_path')
          else (Inr (), out_path'))"

record batch_args =
  ba_shard_index :: int
  ba_shard_total :: int
  ba_batch_size :: int
  ba_max_batches :: int
  ba_company_ids_file :: string

record batch_env =
  research_exists :: bool
  enrich_script_exists :: bool
  companies_csv :: "company_row list option"
  ids_file :: "string list option"
  out_file :: "text_file option"

text \<open>
  The state of the \<^verbatim>\<open>while True\<close> loop: the ledger, \<^verbatim>\<open>batch_num\<close>, and the limits of the
  batches launched so far (one entry for each subprocess run).
  \<^verbatim>\<open>
  while True:
      done_ids = read_done_company_ids(out_path)
      done = len(eligible_ids.intersection(done_ids))
      remaining = total - done
      if remaining <= 0: break
      batch_num += 1
      if args.max_batches and args.max_batches > 0 and batch_num > int(args.max_batches): break
      batch_limit = min(int(args.batch_size), remaining)
      written, ok_companies = run_one_batch(...)
      done_ids = read_done_company_ids(out_path)
      ...
  \<close>
  The loop need not end (a subprocess that never adds a record, no batch cap): it is a
  partial function, \<open>None\<close> where it runs forever.
\<close>

record loop_state =
  ls_ledger :: "text_file option"
  ls_batch_num :: int
  ls_launched :: "int list"

type_synonym run_end = "(py_exn + unit) \<times> loop_state"

partial_function (option) batch_loop ::
  "pylib \<Rightarrow> subprocess \<Rightarrow> batch_args \<Rightarrow> string set \<Rightarrow> loop_state \<Rightarrow> run_end option" where
  "batch_loop L enrich args eligible_ids st =
     (case read_done_company_ids L (ls_ledger st) of
        Inl e \<Rightarrow> Some (Inl e, st)
      | Inr done_ids \<Rightarrow>
          if int (card eligible_ids) - int (card (eligible_ids \<inter> done_ids)) \<le> 0 then Some (Inr (), st)
          else if ba_max_batches args > 0 \<and> ls_batch_num st + 1 > ba_max_batches args
          then Some (Inr (), st\<lparr> ls_batch_num := ls_batch_num st + 1 \<rparr>)
          else
            (case run_one_batch enrich (ls_ledger st)
                    (min (ba_batch_size args)
                       (int (card eligible_ids) - int (card (eligible_ids \<inter> done_ids)))) of
               (Inl e, out_path') \<Rightarrow>
                 Some (Inl e,
                       \<lparr> ls_ledger = out_path', ls_batch_num = ls_batch_num st + 1,
                         ls_launched = ls_launched st @
                           [min (ba_batch_size args)
                              (int (card eligible_ids) - int (card (eligible_ids \<inter> done_ids)))] \<rparr>)
             | (Inr u, out_path') \<Rightarrow>
                 (case read_done_company_ids L out_path' of
                    Inl e \<Rightarrow>
                      Some (Inl e,
                            \<lparr> ls_ledger = out_path', ls_batch_num = ls_batch_num st + 1,
                              ls_launched = ls_launched st @
                                [min (ba_batch_size args)
                                   (int (card eligible_ids) - int (card (eligible_ids \<inter> done_ids)))] \<rparr>)
                  | Inr done_after \<Rightarrow>
                      batch_loop L enrich args eligible_ids
                        \<lparr> ls_ledger = out_path', ls_batch_num = ls_batch_num st + 1,
                          ls_launched = ls_launched st @
                            [min (ba_batch_size args)
                               (int (card eligible_ids) - int (card (eligible_ids \<inter> done_ids)))] \<rparr>)))"

text \<open>
  \<^verbatim>\<open>main\<close>: the checks of the working directory, the eligible ids of the shard, the
  optional allow-list, the first scan of the ledger, then the loop. Nothing is launched
  before the loop.
\<close>

definition orchestrator_main ::
  "pylib \<Rightarrow> subprocess \<Rightarrow> batch_args \<Rightarrow> batch_env \<Rightarrow> run_end option" where
  "orchestrator_main L enrich args env =
     (let st0 = \<lparr> ls_ledger = out_file env, ls_batch_num = 0, ls_launched = [] \<rparr> in
      if \<not> research_exists env
      then Some (Inl (SystemExit ''Run from repo root: cd /Users/oak/Documents/epo''), st0)
      else if \<not> enrich_script_exists env
      then Some (Inl (SystemExit ''Missing script: data_collection/enrich_websites.py''), st0)
      else case companies_csv env of
        None \<Rightarrow> Some (Inl (SystemExit ''Missing research/data/processed/companies.csv. Run: python3 research/analysis/01_data_processing.py''), st0)
      | Some df \<Rightarrow>
          (case load_eligible_company_ids L df (ba_shard_index args) (ba_shard_total args) of
             Inl e \<Rightarrow> Some (Inl e, st0)
           | Inr eligible_ids \<Rightarrow>
               (case (if ba_company_ids_file args \<noteq> []
                      then (case ids_file env of
                              None \<Rightarrow> Inl (SystemExit (''Missing --company-ids-file: '' @ ba_company_ids_file args))
                            | Some lines \<Rightarrow> Inr (eligible_ids \<inter> read_company_ids_file lines))
                      else Inr eligible_ids) of
                  Inl e \<Rightarrow> Some (Inl e, st0)
                | Inr eligible_ids \<Rightarrow>
                    (case read_done_company_ids L (out_file env) of
                       Inl e \<Rightarrow> Some (Inl e, st0)
                     | Inr done_ids \<Rightarrow> batch_loop L enrich args eligible_ids st0))))"

section \<open>Concrete inputs\<close>

text \<open>
  For evaluating the definitions: a serialiser in the format of \<^verbatim>\<open>json.dumps\<close> (separators
  \<^verbatim>\<open>", "\<close> and \<^verbatim>\<open>": "\<close>, no float digits), the byte sum as hash, and a parser that knows the
  lines of the examples by heart and takes every other line as malformed.
\<close>

fun escape_char :: "char \<Rightarrow> string" where
  "escape_char c =
     (if c = CHR 0x22 then [CHR 0x5C, CHR 0x22]
      else if c = CHR 0x5C then [CHR 0x5C, CHR 0x5C] else [c])"

definition quote :: "string \<Rightarrow> string" where
  "quote s = [CHR 0x22] @ concat (map escape_char s) @ [CHR 0x22]"

fun join :: "string \<Rightarrow> string list \<Rightarrow> string" where
  "join sep [] = []"
| "join sep [x] = x"
| "join sep (x # y # ys) = x @ sep @ join sep (y # ys)"

fun dumps :: "json \<Rightarrow> string" where
  "dumps JNull = ''null''"
| "dumps (JBool b) = (if b then ''true'' else ''false'')"
| "dumps (JInt n) = str_int n"
| "dumps (JFloat m e) = ''0.0''"
| "dumps (JStr s) = quote s"
| "dumps (JList xs) = ''['' @ join '', '' (map dumps xs) @ '']''"
| "dumps (JObj kvs) =
     ''{'' @ join '', '' (map (\<lambda>(k, v). quote k @ '': '' @ dumps v) kvs) @ ''}''"

definition record_a :: json where
  "record_a = JObj [(''org_id'', JStr ''a''), (''name'', JStr ''Alpha''), (''publications'', JList []),
                    (''publication_count'', JInt 0)]"

definition record_b :: json where
  "record_b = JObj [(''org_id'', JStr ''b''), (''name'', JStr ''Beta''), (''error'', JBool True),
                    (''http_status'', JInt 403), (''message'', JNull)]"

definition record_c :: json where
  "record_c = JObj [(''org_id'', JStr ''c''), (''name'', JStr ''Gamma''), (''publications'', JList []),
                    (''publication_count'', JInt 0)]"

definition line_a :: string where
  "line_a = dumps record_a @ nl"

definition line_b :: string where
  "line_b = dumps record_b @ nl"

definition line_c :: string where
  "line_c = dumps record_c @ nl"

definition record_w :: json where
  "record_w = JObj [(''company_id'', JStr ''w1''), (''pages'', JList [])]"

definition line_w :: string where
  "line_w = dumps record_w @ nl"

definition record_zero :: json where
  "record_zero = JObj [(''org_id'', JInt 0), (''name'', JStr ''Zero''), (''publications'', JList []),
                       (''publication_count'', JInt 0)]"

definition line_zero :: string where
  "line_zero = dumps record_zero @ nl"

definition line_list :: string where
  "line_list = ''[1]'' @ nl"

definition line_cut :: string where
  "line_cut = take 20 line_c"

definition demo_loads :: "string \<Rightarrow> json option" where
  "demo_loads s =
     map_of [(line_a, record_a), (line_b, record_b), (line_c, record_c), (line_w, record_w),
             (line_zero, record_zero), (line_list, JList [JInt 1])] s"

definition demo_lib :: pylib where
  "demo_lib = \<lparr> json_loads = demo_loads, json_dumps = dumps, py_repr = dumps,
                 sha256_hex_int = byte_sum \<rparr>"

definition demo_df :: "company_row list" where
  "demo_df =
     [\<lparr> company_id = ''b'', homepage_url = Some ''https://b.example'', homepage_url_raw = None \<rparr>,
      \<lparr> company_id = ''a'', homepage_url = None, homepage_url_raw = Some ''a.example'' \<rparr>,
      \<lparr> company_id = ''d'', homepage_url = None, homepage_url_raw = None \<rparr>,
      \<lparr> company_id = ''c'', homepage_url = Some ''https://c.example'', homepage_url_raw = None \<rparr>]"

definition demo_env :: batch_env where
  "demo_env = \<lparr> research_exists = True, enrich_script_exists = True, companies_csv = Some demo_df,
                 ids_file = None, out_file = None \<rparr>"

definition demo_enrich :: subprocess where
  "demo_enrich out_path batch_limit = (out_path, 0)"

definition demo_batch_args :: batch_args where
  "demo_batch_args = \<lparr> ba_shard_index = 2, ba_shard_total = 2, ba_batch_size = 500,
                        ba_max_batches = 0, ba_company_ids_file = [] \<rparr>"

definition pub1 :: json where
  "pub1 = JObj [(''pn'', JStr ''EP1'')]"

definition pub2 :: json where
  "pub2 = JObj [(''pn'', JStr ''EP2'')]"

definition record_b_retried :: json where
  "record_b_retried =
     JObj [(''org_id'', JStr ''b''), (''name'', JStr ''Beta''), (''role'', JNull), (''total'', JInt 2),
           (''publications'', JList [pub1, pub2]), (''publication_count'', JInt 2),
           (''extraction_timestamp'', JStr ''2026-01-07T10:00:00Z''), (''retried'', JBool True),
           (''retry_attempts'', JInt 2)]"

definition demo_replacements :: "string \<rightharpoonup> json" where
  "demo_replacements = Map.empty(''b'' \<mapsto> record_b_retried)"

definition demo_clock :: clock where
  "demo_clock = \<lparr> utc_iso = (\<lambda>org_id. ''2026-01-07T10:00:00''),
                   local_now = \<lparr> lt_year = 2026, lt_month = 1, lt_day = 7, lt_hour = 10,
                                 lt_minute = 0, lt_second = 0 \<rparr> \<rparr>"

definition demo_args :: retry_args where
  "demo_args = \<lparr> arg_input = ''raw/epo_publications_2026-01-06.jsonl'', arg_output = [],
                  arg_inplace = True, arg_batch_size = 50, arg_max_attempts = 4 \<rparr>"

definition demo_fs :: "ledger \<Rightarrow> filesys" where
  "demo_fs lines = Map.empty(''raw/epo_publications_2026-01-06.jsonl'' \<mapsto> lines)"


definition demo_args_once :: retry_args where
  "demo_args_once = \<lparr> arg_input = ''raw/epo_publications_2026-01-06.jsonl'', arg_output = [],
                       arg_inplace = False, arg_batch_size = 50, arg_max_attempts = 0 \<rparr>"

definition response_403 :: json where
  "response_403 = JObj [(''ok'', JBool False), (''status'', JInt 403),
                        (''data'', JObj [(''detail'', JStr ''Forbidden'')])]"

definition demo_input :: path where
  "demo_input = ''raw/epo_publications_2026-01-06.jsonl''"

definition leftover_input :: path where
  "leftover_input = ''raw/epo_publications_2026-01-06.jsonl.tmp''"

definition leftover_output :: path where
  "leftover_output = ''raw/epo_publications_2026-01-06.jsonl''"

definition leftover_args :: retry_args where
  "leftover_args = \<lparr> arg_input = leftover_input, arg_output = leftover_output,
                      arg_inplace = True, arg_batch_size = 50, arg_max_attempts = 4 \<rparr>"

definition leftover_fs :: filesys where
  "leftover_fs = Map.empty(leftover_input \<mapsto> [line_a, line_b, line_c])"


section \<open>Work partitioning: the shards partition the universe\<close>

lemma load_eligible_in_range:
  assumes "1 \<le> shard_total" "0 \<le> i" "i < shard_total"
  shows "load_eligible_company_ids L df i shard_total =
           Inr {c \<in> set (map company_id (eligible_urls df)). shard_for_company_id L c shard_total = i}"
proof (cases "1 < shard_total")
  case True
  with assms show ?thesis
    by (auto simp: load_eligible_company_ids_def Let_def)
next
  case False
  with assms have "shard_total = 1" "i = 0" by auto
  then show ?thesis
    by (auto simp: load_eligible_company_ids_def Let_def shard_for_company_id_def)
qed

lemma shard_for_company_id_range:
  "1 \<le> shard_total \<Longrightarrow>
     0 \<le> shard_for_company_id L c shard_total \<and> shard_for_company_id L c shard_total < shard_total"
  by (simp add: shard_for_company_id_def Let_def)

text \<open>
  Claim C3. For every table of companies and every \<open>shard_total \<ge> 1\<close>: each shard index in
  \<open>[0, shard_total)\<close> is accepted, the union of the selections over these indices is the
  whole eligible universe (the ids of the rows with a URL), and the selections of two
  different indices are disjoint.
\<close>

theorem shard_selection_partitions_universe:
  assumes "1 \<le> shard_total"
  shows "(\<forall>i\<in>{0..<shard_total}. \<not> isl (load_eligible_company_ids L df i shard_total)) \<and>
         (\<Union>i\<in>{0..<shard_total}. projr (load_eligible_company_ids L df i shard_total))
            = set (map company_id (eligible_urls df)) \<and>
         (\<forall>i\<in>{0..<shard_total}. \<forall>j\<in>{0..<shard_total}. i \<noteq> j \<longrightarrow>
            projr (load_eligible_company_ids L df i shard_total) \<inter>
            projr (load_eligible_company_ids L df j shard_total) = {})"
  using assms shard_for_company_id_range [OF assms, of L]
  by (auto simp: load_eligible_in_range)

theorem shard_selection_partitions_universe_witness:
  "(1::int) \<le> 2 \<and>
   projr (load_eligible_company_ids demo_lib demo_df 0 2) \<union>
   projr (load_eligible_company_ids demo_lib demo_df 1 2) = {''a'', ''b'', ''c''} \<and>
   projr (load_eligible_company_ids demo_lib demo_df 0 2) \<inter>
   projr (load_eligible_company_ids demo_lib demo_df 1 2) = {}"
proof -
  have r: "{0..<2::int} = {0, 1}" by auto
  have u: "set (map company_id (eligible_urls demo_df)) = {''a'', ''b'', ''c''}" by code_simp
  from shard_selection_partitions_universe [of 2 demo_lib demo_df] r u
  show ?thesis by auto
qed

text \<open>
  Claim C8, as the code has it. \<^verbatim>\<open>load_eligible_company_ids\<close> first raises \<open>shard_total\<close> to
  at least 1 and only then checks the index: the shard selection fails, with \<^verbatim>\<open>SystemExit\<close>,
  exactly when \<open>shard_index < 0\<close> or \<open>shard_index \<ge> max 1 shard_total\<close>. When it fails,
  \<^verbatim>\<open>main\<close> ends with that exception before the ledger is scanned and before any batch is
  launched.
\<close>

theorem invalid_shard_exits_before_any_batch:
  "(isl (load_eligible_company_ids L df shard_index shard_total)
      \<longleftrightarrow> shard_index < 0 \<or> max 1 shard_total \<le> shard_index) \<and>
   (shard_index < 0 \<or> max 1 shard_total \<le> shard_index \<longrightarrow>
      load_eligible_company_ids L df shard_index shard_total
        = Inl (SystemExit (invalid_shard_message (max 1 shard_total))) \<and>
      (research_exists env \<and> enrich_script_exists env \<and> companies_csv env = Some df \<and>
       ba_shard_index args = shard_index \<and> ba_shard_total args = shard_total \<longrightarrow>
         orchestrator_main L enrich args env
           = Some (Inl (SystemExit (invalid_shard_message (max 1 shard_total))),
                   \<lparr> ls_ledger = out_file env, ls_batch_num = 0, ls_launched = [] \<rparr>)))"
proof -
  have a: "load_eligible_company_ids L df shard_index shard_total
           = Inl (SystemExit (invalid_shard_message (max 1 shard_total)))"
    if "shard_index < 0 \<or> max 1 shard_total \<le> shard_index"
    using that by (auto simp: load_eligible_company_ids_def Let_def)
  have b: "\<not> isl (load_eligible_company_ids L df shard_index shard_total)"
    if "\<not> (shard_index < 0 \<or> max 1 shard_total \<le> shard_index)"
    using that by (auto simp: load_eligible_company_ids_def Let_def)
  show ?thesis
    using a b by (auto simp: orchestrator_main_def Let_def)
qed

theorem invalid_shard_exits_before_any_batch_witness:
  "((2::int) < 0 \<or> max 1 2 \<le> (2::int)) \<and>
   isl (load_eligible_company_ids demo_lib demo_df 2 2) \<and>
   orchestrator_main demo_lib demo_enrich demo_batch_args demo_env
     = Some (Inl (SystemExit ''Invalid shard: --shard-index must be in [0, 1]''),
             \<lparr> ls_ledger = None, ls_batch_num = 0, ls_launched = [] \<rparr>)"
proof -
  have h: "(2::int) < 0 \<or> max 1 2 \<le> (2::int)" by simp
  have m: "invalid_shard_message (max 1 2) = ''Invalid shard: --shard-index must be in [0, 1]''"
    by code_simp
  from invalid_shard_exits_before_any_batch
         [of demo_lib demo_df 2 2 demo_env demo_batch_args demo_enrich] m h
  show ?thesis by (simp add: demo_env_def demo_batch_args_def)
qed

text \<open>
  The claim as stated fails where \<open>shard_total\<close> is below 1: index 0 with \<open>shard_total = 0\<close>
  has \<open>shard_index \<ge> shard_total\<close>, and the selection succeeds with the whole universe.
\<close>

theorem shard_total_zero_accepted:
  "(0::int) \<ge> 0 \<and> load_eligible_company_ids demo_lib demo_df 0 0 = Inr {''a'', ''b'', ''c''}"
  by code_simp

section \<open>The done-set scan\<close>
















section \<open>The Retry Patcher's rewrite\<close>

lemma load_error_loop_malformed:
  assumes "line \<in> set lines" "strip line \<noteq> []" "json_loads L line = None"
  shows "isl (load_error_loop L lines out)"
  using assms
proof (induction lines arbitrary: out)
  case Nil
  then show ?case by simp
next
  case (Cons l ls)
  show ?case
  proof (cases "l = line")
    case True
    with Cons.prems show ?thesis by simp
  next
    case False
    with Cons.prems have "line \<in> set ls" by simp
    note IH = Cons.IH [OF this Cons.prems(2,3)]
    show ?thesis
      by (simp add: IH split: option.splits sum.splits)
  qed
qed

lemma rewrite_lines_malformed:
  assumes "line \<in> set lines" "strip line \<noteq> []" "json_loads L line = None"
  shows "snd (rewrite_lines L lines replacements) \<noteq> None"
  using assms
proof (induction lines)
  case Nil
  then show ?case by simp
next
  case (Cons l ls)
  show ?case
  proof (cases "l = line")
    case True
    with Cons.prems show ?thesis by simp
  next
    case False
    with Cons.prems have "line \<in> set ls" by simp
    note IH = Cons.IH [OF this Cons.prems(2,3)]
    show ?thesis
      using IH by (auto simp: Let_def split: option.splits sum.splits prod.splits)
  qed
qed

lemma org_id_of_record:
  "json_loads L line = Some (JObj kvs) \<Longrightarrow> org_id_of L (JObj kvs) = Inr (line_unit_id L line)"
  by (simp add: org_id_of_def line_unit_id_def)

lemma rewrite_lines_records:
  assumes "\<forall>line\<in>set lines. strip line \<noteq> [] \<longrightarrow> (\<exists>kvs. json_loads L line = Some (JObj kvs))"
  shows "rewrite_lines L lines replacements
           = (map (spec_rewrite_line L replacements) (filter (\<lambda>l. strip l \<noteq> []) lines), None)"
  using assms
proof (induction lines)
  case Nil
  then show ?case by simp
next
  case (Cons l ls)
  then have IH: "rewrite_lines L ls replacements
           = (map (spec_rewrite_line L replacements) (filter (\<lambda>l. strip l \<noteq> []) ls), None)"
    by simp
  show ?case
  proof (cases "strip l = []")
    case True
    then show ?thesis by (simp add: IH)
  next
    case False
    with Cons.prems obtain kvs where p: "json_loads L l = Some (JObj kvs)" by auto
    show ?thesis
      using False p
      by (simp add: IH org_id_of_record [OF p] spec_rewrite_line_def Let_def)
  qed
qed

lemma rstrip_nl_line:
  assumes "body = [] \<or> last body \<noteq> CHR 0x0A"
  shows "rstrip_nl (body @ nl) @ nl = body @ nl"
proof (cases body rule: rev_cases)
  case Nil
  then show ?thesis by (simp add: rstrip_nl_def nl_def)
next
  case (snoc ys y)
  with assms have "y \<noteq> CHR 0x0A" by simp
  with snoc show ?thesis by (simp add: rstrip_nl_def nl_def)
qed

text \<open>
  Claim C1, as the code has it. For every ledger whose non-blank lines parse to records, and
  every replacement map, the rewrite ends without an exception and writes one line for each
  non-blank line of the input, in the input's order: the serialised replacement where the
  line's unit id is a key of the map, the line itself (ended by one line feed) otherwise.
  Blank lines are left out. So when no line is blank the output has as many lines as the
  input, each at the position of the line it comes from, and a line that ends in its one
  line feed and is not replaced is written as it is.
\<close>

theorem rewrite_replaces_lines_in_place:
  assumes "\<forall>line\<in>set lines. strip line \<noteq> [] \<longrightarrow> (\<exists>kvs. json_loads L line = Some (JObj kvs))"
  shows "rewrite_lines L lines replacements
           = (map (spec_rewrite_line L replacements) (filter (\<lambda>l. strip l \<noteq> []) lines), None) \<and>
         ((\<forall>line\<in>set lines. strip line \<noteq> []) \<longrightarrow>
            length (fst (rewrite_lines L lines replacements)) = length lines \<and>
            (\<forall>i<length lines.
               fst (rewrite_lines L lines replacements) ! i = spec_rewrite_line L replacements (lines ! i))) \<and>
         (fs inp = Some lines \<and> out \<noteq> inp \<longrightarrow>
            rewrite_with_replacements L fs inp out replacements
              = (Inr (), fs(out \<mapsto> map (spec_rewrite_line L replacements)
                                        (filter (\<lambda>l. strip l \<noteq> []) lines)))) \<and>
         ((body = [] \<or> last body \<noteq> CHR 0x0A) \<and>
          (line_unit_id L (body @ nl) = [] \<or> replacements (line_unit_id L (body @ nl)) = None) \<longrightarrow>
            spec_rewrite_line L replacements (body @ nl) = body @ nl)"
proof -
  note r = rewrite_lines_records [OF assms, of replacements]
  have a: "length (fst (rewrite_lines L lines replacements)) = length lines \<and>
            (\<forall>i<length lines.
               fst (rewrite_lines L lines replacements) ! i = spec_rewrite_line L replacements (lines ! i))"
    if "\<forall>line\<in>set lines. strip line \<noteq> []"
  proof -
    from that have "filter (\<lambda>l. strip l \<noteq> []) lines = lines" by simp
    then show ?thesis by (simp add: r)
  qed
  have b: "rewrite_with_replacements L fs inp out replacements
              = (Inr (), fs(out \<mapsto> map (spec_rewrite_line L replacements)
                                        (filter (\<lambda>l. strip l \<noteq> []) lines)))"
    if "fs inp = Some lines" "out \<noteq> inp"
    using that by (simp add: rewrite_with_replacements_def r)
  have c: "spec_rewrite_line L replacements (body @ nl) = body @ nl"
    if "body = [] \<or> last body \<noteq> CHR 0x0A"
       "line_unit_id L (body @ nl) = [] \<or> replacements (line_unit_id L (body @ nl)) = None"
    using that rstrip_nl_line [OF that(1)] by (auto simp: spec_rewrite_line_def Let_def)
  from r a b c show ?thesis by blast
qed

theorem rewrite_replaces_lines_in_place_witness:
  "json_loads demo_lib line_a = Some record_a \<and> json_loads demo_lib line_b = Some record_b \<and>
   json_loads demo_lib line_c = Some record_c \<and>
   map (spec_rewrite_line demo_lib demo_replacements) [line_a, line_b, line_c]
     = [line_a, dumps record_b_retried @ nl, line_c] \<and>
   fst (rewrite_lines demo_lib [line_a, line_b, line_c] demo_replacements) ! 1
     = spec_rewrite_line demo_lib demo_replacements line_b"
proof -
  have pa: "json_loads demo_lib line_a = Some record_a" by code_simp
  have pb: "json_loads demo_lib line_b = Some record_b" by code_simp
  have pc: "json_loads demo_lib line_c = Some record_c" by code_simp
  have nb: "strip line_a \<noteq> []" "strip line_b \<noteq> []" "strip line_c \<noteq> []" by code_simp+
  have h: "\<forall>line\<in>set [line_a, line_b, line_c].
             strip line \<noteq> [] \<longrightarrow> (\<exists>kvs. json_loads demo_lib line = Some (JObj kvs))"
    by (simp add: pa pb pc record_a_def record_b_def record_c_def)
  have e: "rewrite_lines demo_lib [line_a, line_b, line_c] demo_replacements
             = ([line_a, dumps record_b_retried @ nl, line_c], None)"
    by code_simp
  note t = rewrite_replaces_lines_in_place [OF h, of demo_replacements]
  from t e nb have m: "map (spec_rewrite_line demo_lib demo_replacements) [line_a, line_b, line_c]
     = [line_a, dumps record_b_retried @ nl, line_c]"
    by simp
  from t nb have "fst (rewrite_lines demo_lib [line_a, line_b, line_c] demo_replacements) ! 1
     = spec_rewrite_line demo_lib demo_replacements ([line_a, line_b, line_c] ! 1)"
    by simp
  with pa pb pc m show ?thesis by simp
qed

text \<open>
  The claim as stated fails on a ledger with a blank line, which the rewrite drops (the
  lines after it move up), and on a ledger with a line that does not parse, where the
  rewrite stops with an exception.
\<close>

theorem rewrite_drops_blank_and_stops_at_malformed:
  "rewrite_lines demo_lib [line_a, nl, line_c] demo_replacements = ([line_a, line_c], None) \<and>
   rewrite_lines demo_lib [line_a, line_cut, line_c] demo_replacements = ([line_a], Some JSONDecodeError)"
  by code_simp

text \<open>
  Claim C9. For every ledger with a non-blank line that \<^verbatim>\<open>json.loads\<close> rejects, the
  collection of the failed records raises, and so does the rewrite loop; the rewrite to a
  path other than the input leaves the input file as it was; and \<^verbatim>\<open>main\<close> ends with the
  exception of the collection, with the file system unchanged and no file operation
  performed.
\<close>

theorem retry_patcher_readers_raise_on_malformed_line:
  assumes "line \<in> set lines" "strip line \<noteq> []" "json_loads L line = None"
  shows "isl (load_error_records L lines) \<and>
         snd (rewrite_lines L lines replacements) \<noteq> None \<and>
         (fs inp = Some lines \<and> out \<noteq> inp \<longrightarrow>
            isl (fst (rewrite_with_replacements L fs inp out replacements)) \<and>
            snd (rewrite_with_replacements L fs inp out replacements) inp = Some lines) \<and>
         (fs (arg_input args) = Some lines \<longrightarrow>
            (\<exists>e. retry_main L clk args fs responses
                    = Some \<lparr> mr_ended = Inl e, mr_files = fs, mr_ops = [],
                             mr_state = \<lparr> st_replacements = Map.empty, st_page = responses,
                                          st_events = [] \<rparr> \<rparr>))"
proof -
  have a: "isl (load_error_records L lines)"
    using load_error_loop_malformed [OF assms] by (simp add: load_error_records_def)
  have b: "snd (rewrite_lines L lines replacements) \<noteq> None"
    by (rule rewrite_lines_malformed [OF assms])
  have c: "isl (fst (rewrite_with_replacements L fs inp out replacements)) \<and>
            snd (rewrite_with_replacements L fs inp out replacements) inp = Some lines"
    if "fs inp = Some lines" "out \<noteq> inp"
    using that b
    by (auto simp: rewrite_with_replacements_def Let_def split: prod.splits option.splits)
  have d: "\<exists>e. retry_main L clk args fs responses
                    = Some \<lparr> mr_ended = Inl e, mr_files = fs, mr_ops = [],
                             mr_state = \<lparr> st_replacements = Map.empty, st_page = responses,
                                          st_events = [] \<rparr> \<rparr>"
    if "fs (arg_input args) = Some lines"
  proof -
    from a obtain e where "load_error_records L lines = Inl e"
      by (cases "load_error_records L lines") simp_all
    with that show ?thesis by (simp add: retry_main_def Let_def)
  qed
  from a b c d show ?thesis by blast
qed

theorem retry_patcher_readers_raise_on_malformed_line_witness:
  "line_cut \<in> set [line_a, line_cut, line_b] \<and> strip line_cut \<noteq> [] \<and>
   json_loads demo_lib line_cut = None \<and>
   load_error_records demo_lib [line_a, line_cut, line_b] = Inl JSONDecodeError \<and>
   isl (load_error_records demo_lib [line_a, line_cut, line_b]) \<and>
   (\<exists>e. retry_main demo_lib demo_clock demo_args (demo_fs [line_a, line_cut, line_b]) []
          = Some \<lparr> mr_ended = Inl e, mr_files = demo_fs [line_a, line_cut, line_b], mr_ops = [],
                   mr_state = \<lparr> st_replacements = Map.empty, st_page = [], st_events = [] \<rparr> \<rparr>)"
proof -
  have m: "line_cut \<in> set [line_a, line_cut, line_b]" by simp
  have nb: "strip line_cut \<noteq> []" by code_simp
  have cut: "json_loads demo_lib line_cut = None" by code_simp
  have e: "load_error_records demo_lib [line_a, line_cut, line_b] = Inl JSONDecodeError" by code_simp
  have f: "demo_fs [line_a, line_cut, line_b] (arg_input demo_args) = Some [line_a, line_cut, line_b]"
    by (simp add: demo_fs_def demo_args_def)
  note t = retry_patcher_readers_raise_on_malformed_line [OF m nb cut,
             of Map.empty "demo_fs [line_a, line_cut, line_b]" "arg_input demo_args" "[]" demo_args
                demo_clock "[]"]
  from t f m nb cut e show ?thesis by blast
qed


section \<open>The paginators\<close>

lemma entity_page_ok:
  "entity_page org_id name acc (ok_response items token) =
     Inr (if token = [] \<or> items = [] then Break (acc @ items) else Continue (acc @ items) (JStr token))"
  by (simp add: entity_page_def ok_response_def)

lemma fetch_entity_loop_pages:
  assumes "\<forall>p\<in>set pages. snd p \<noteq> [] \<and> fst p \<noteq> []"
      and "snd final = [] \<or> fst final = []"
  shows "fetch_entity_loop (map page_outcome (pages @ [final]) @ rest) org_id name token acc log
           = Some (entity_success_record org_id name (acc @ concat (map fst pages) @ fst final), rest,
                   log @ Evaluate org_id token # map (\<lambda>p. Evaluate org_id (JStr (snd p))) pages)"
  using assms(1)
proof (induction pages arbitrary: token acc log)
  case Nil
  with assms(2) show ?case
    by (auto simp: page_outcome_def entity_page_ok Let_def)
next
  case (Cons p ps)
  then have p: "snd p \<noteq> []" "fst p \<noteq> []" and ps: "\<forall>p\<in>set ps. snd p \<noteq> [] \<and> fst p \<noteq> []"
    by simp_all
  from Cons.IH [OF ps, of "JStr (snd p)" "acc @ fst p" "log @ [Evaluate org_id token]"]
  show ?case
    using p by (simp add: page_outcome_def entity_page_ok Let_def)
qed

lemma retry_page_ok:
  "retry_page L pubs tot (ok_response items token) =
     Inr (if token = [] then Done (pubs @ items) tot else More (pubs @ items) tot (JStr token))"
  by (cases tot)
     (simp_all add: retry_page_def ok_response_def is_dict_def py_or_def as_py_int_def Let_def)

lemma attempt_loop_pages:
  assumes "\<forall>p\<in>set pages. snd p \<noteq> []"
  shows "attempt_loop L (map page_outcome (pages @ [(items, [])]) @ rest) org_id token pubs tot log
           = Some (Inr (pubs @ concat (map fst pages) @ items, tot), rest,
                   log @ Evaluate org_id token # map (\<lambda>p. Evaluate org_id (JStr (snd p))) pages)"
  using assms
proof (induction pages arbitrary: token pubs log)
  case Nil
  show ?case by (simp add: page_outcome_def retry_page_ok Let_def)
next
  case (Cons p ps)
  then have p: "snd p \<noteq> []" and ps: "\<forall>p\<in>set ps. snd p \<noteq> []" by simp_all
  from Cons.IH [OF ps, of "JStr (snd p)" "pubs @ fst p" "log @ [Evaluate org_id token]"]
  show ?case
    using p by (simp add: page_outcome_def retry_page_ok Let_def)
qed

lemma failed_call_retry_page:
  assumes "reports_failure res"
  shows "\<exists>e s. retry_page L pubs tot res = Inl (e, Some s)"
proof (cases res)
  case (JObj kvs)
  with assms show ?thesis
    by (simp add: retry_page_def reports_failure_def is_dict_def)
qed (simp_all add: retry_page_def is_dict_def)

lemma attempt_loop_fails:
  assumes "\<forall>p\<in>set pages. snd p \<noteq> []" and "failed_call bad"
  shows "\<exists>e s. attempt_loop L (map page_outcome pages @ bad # rest) org_id token pubs tot log
           = Some (Inl (e, s), rest,
                   log @ Evaluate org_id token # map (\<lambda>p. Evaluate org_id (JStr (snd p))) pages)"
  using assms(1)
proof (induction pages arbitrary: token pubs log)
  case Nil
  show ?case
  proof (cases bad)
    case (Inl e)
    then show ?thesis by (simp add: Let_def)
  next
    case (Inr res)
    with assms(2) have "reports_failure res" by (simp add: failed_call_def)
    from failed_call_retry_page [OF this, of L pubs tot] obtain e s
      where "retry_page L pubs tot res = Inl (e, Some s)" by blast
    with Inr show ?thesis by (simp add: Let_def)
  qed
next
  case (Cons p ps)
  then have p: "snd p \<noteq> []" and ps: "\<forall>p\<in>set ps. snd p \<noteq> []" by simp_all
  from Cons.IH [OF ps, of "JStr (snd p)" "pubs @ fst p" "log @ [Evaluate org_id token]"]
  show ?case
    using p by (simp add: page_outcome_def retry_page_ok Let_def)
qed

lemma fetch_attempts_succeeds:
  assumes "\<forall>p\<in>set pages. snd p \<noteq> []" and "attempt \<le> max_attempts"
  shows "fetch_attempts L max_attempts org_id attempt
           (map page_outcome (pages @ [(items, [])]) @ rest) last_err last_status log
         = Some (FetchOk (concat (map fst pages) @ items) None attempt, rest,
                 log @ attempt_events org_id pages)"
  using assms(2) attempt_loop_pages [OF assms(1), of L items rest org_id "JStr []" "[]" None log]
  by (subst fetch_attempts.simps) (simp add: attempt_events_def)

lemma fetch_attempts_retries:
  assumes "\<forall>p\<in>set (fst a). snd p \<noteq> []" and "failed_call (snd a)" and "attempt < max_attempts"
  shows "\<exists>last_err' last_status'.
           fetch_attempts L max_attempts org_id attempt (failed_attempt a @ tail) last_err last_status log
           = fetch_attempts L max_attempts org_id (attempt + 1) tail last_err' last_status'
               (log @ attempt_events org_id (fst a) @ [Reload])"
proof -
  from attempt_loop_fails [OF assms(1,2), of L tail org_id "JStr []" "[]" None log]
  obtain e s where
    "attempt_loop L (map page_outcome (fst a) @ snd a # tail) org_id (JStr []) [] None log
       = Some (Inl (e, s), tail,
               log @ Evaluate org_id (JStr []) # map (\<lambda>p. Evaluate org_id (JStr (snd p))) (fst a))"
    by blast
  then show ?thesis
    using assms(3)
    by (subst fetch_attempts.simps)
       (auto simp: failed_attempt_def attempt_events_def Let_def)
qed

lemma fetch_attempts_gives_up:
  assumes "\<forall>p\<in>set (fst a). snd p \<noteq> []" and "failed_call (snd a)" and "attempt = max_attempts"
  shows "\<exists>err status.
           fetch_attempts L max_attempts org_id attempt (failed_attempt a @ tail) last_err last_status log
           = Some (FetchFailed err status attempt, tail, log @ attempt_events org_id (fst a))"
proof -
  from attempt_loop_fails [OF assms(1,2), of L tail org_id "JStr []" "[]" None log]
  obtain e s where
    "attempt_loop L (map page_outcome (fst a) @ snd a # tail) org_id (JStr []) [] None log
       = Some (Inl (e, s), tail,
               log @ Evaluate org_id (JStr []) # map (\<lambda>p. Evaluate org_id (JStr (snd p))) (fst a))"
    by blast
  then show ?thesis
    using assms(3)
    by (subst fetch_attempts.simps)
       (auto simp: failed_attempt_def attempt_events_def Let_def)
qed

lemma fetch_attempts_after_failures:
  assumes "\<forall>a\<in>set fails. (\<forall>p\<in>set (fst a). snd p \<noteq> []) \<and> failed_call (snd a)"
      and "attempt + int (length fails) \<le> max_attempts"
  shows "\<exists>last_err' last_status'.
           fetch_attempts L max_attempts org_id attempt (concat (map failed_attempt fails) @ tail)
             last_err last_status log
           = fetch_attempts L max_attempts org_id (attempt + int (length fails)) tail
               last_err' last_status'
               (log @ concat (map (\<lambda>a. attempt_events org_id (fst a) @ [Reload]) fails))"
  using assms
proof (induction fails arbitrary: attempt last_err last_status log)
  case Nil
  show ?case by auto
next
  case (Cons a fails)
  from Cons.prems have a: "\<forall>p\<in>set (fst a). snd p \<noteq> []" "failed_call (snd a)"
    and rest: "\<forall>a\<in>set fails. (\<forall>p\<in>set (fst a). snd p \<noteq> []) \<and> failed_call (snd a)"
    and lt: "attempt < max_attempts"
    and le: "(attempt + 1) + int (length fails) \<le> max_attempts"
    by auto
  from fetch_attempts_retries [OF a lt, of L org_id "concat (map failed_attempt fails) @ tail"
         last_err last_status log]
  obtain le1 ls1 where step:
    "fetch_attempts L max_attempts org_id attempt
       (failed_attempt a @ concat (map failed_attempt fails) @ tail) last_err last_status log
     = fetch_attempts L max_attempts org_id (attempt + 1) (concat (map failed_attempt fails) @ tail)
         le1 ls1 (log @ attempt_events org_id (fst a) @ [Reload])"
    by blast
  from Cons.IH [OF rest le, of le1 ls1 "log @ attempt_events org_id (fst a) @ [Reload]"]
  obtain le2 ls2 where
    "fetch_attempts L max_attempts org_id (attempt + 1) (concat (map failed_attempt fails) @ tail)
         le1 ls1 (log @ attempt_events org_id (fst a) @ [Reload])
     = fetch_attempts L max_attempts org_id (attempt + 1 + int (length fails)) tail le2 ls2
         ((log @ attempt_events org_id (fst a) @ [Reload]) @
          concat (map (\<lambda>a. attempt_events org_id (fst a) @ [Reload]) fails))"
    by blast
  with step have
    "fetch_attempts L max_attempts org_id attempt
       (concat (map failed_attempt (a # fails)) @ tail) last_err last_status log
     = fetch_attempts L max_attempts org_id (attempt + int (length (a # fails))) tail le2 ls2
         (log @ concat (map (\<lambda>a. attempt_events org_id (fst a) @ [Reload]) (a # fails)))"
    by (simp add: ac_simps)
  then show ?case by blast
qed

lemma retry_page_More_truthy:
  "retry_page L pubs tot res = Inr (More pubs' tot' token) \<Longrightarrow> truthy token"
  by (auto simp: retry_page_def Let_def py_or_def split: if_splits sum.splits)

lemma attempt_loop_log:
  "attempt_loop L page org_id token pubs tot log = Some (r, page', log') \<Longrightarrow>
     \<exists>later. log' = log @ Evaluate org_id token # later \<and>
             (\<forall>e\<in>set later. \<exists>t. e = Evaluate org_id t \<and> truthy t)"
proof (induction page arbitrary: token pubs tot log)
  case Nil
  then show ?case by simp
next
  case (Cons x rest)
  let ?step = "case x of Inl e \<Rightarrow> Inl (e, None) | Inr res \<Rightarrow> retry_page L pubs tot res"
  show ?case
  proof (cases ?step)
    case (Inl y)
    with Cons.prems show ?thesis by (auto simp: Let_def)
  next
    case (Inr st)
    show ?thesis
    proof (cases st)
      case (Done p t)
      with Inr Cons.prems show ?thesis by (auto simp: Let_def)
    next
      case (More p t token')
      with Inr have tk: "truthy token'"
        by (cases x) (auto dest: retry_page_More_truthy)
      from More Inr Cons.prems
      have "attempt_loop L rest org_id token' p t (log @ [Evaluate org_id token]) = Some (r, page', log')"
        by (simp add: Let_def)
      from Cons.IH [OF this] obtain later where
        "log' = (log @ [Evaluate org_id token]) @ Evaluate org_id token' # later"
        "\<forall>e\<in>set later. \<exists>t. e = Evaluate org_id t \<and> truthy t"
        by blast
      with tk show ?thesis
        by (intro exI [of _ "Evaluate org_id token' # later"]) auto
    qed
  qed
qed

lemma attempt_loop_counts:
  assumes "attempt_loop L page org_id (JStr []) pubs tot log = Some (r, page', log')"
  shows "attempts_in org_id log' = attempts_in org_id log + 1 \<and> reloads_in log' = reloads_in log"
proof -
  from attempt_loop_log [OF assms] obtain later where
    l: "log' = log @ Evaluate org_id (JStr []) # later"
    and t: "\<forall>e\<in>set later. \<exists>t. e = Evaluate org_id t \<and> truthy t"
    by blast
  from t have "filter (\<lambda>e. e = Evaluate org_id (JStr [])) later = []"
    by (auto simp: filter_empty_conv)
  moreover from t have "filter (\<lambda>e. e = Reload) later = []"
    by (auto simp: filter_empty_conv)
  ultimately show ?thesis
    using l by (simp add: attempts_in_def reloads_in_def)
qed

lemma fetch_attempts_counts:
  "fetch_attempts L max_attempts org_id attempt page last_err last_status log = Some (res, page', log') \<Longrightarrow>
   attempt \<le> max_attempts \<Longrightarrow>
     (case res of
        FetchOk pubs tot a \<Rightarrow>
          attempt \<le> a \<and> a \<le> max_attempts \<and>
          attempts_in org_id log' = attempts_in org_id log + (a - attempt + 1) \<and>
          reloads_in log' = reloads_in log + (a - attempt)
      | FetchFailed err status a \<Rightarrow>
          a = max_attempts \<and>
          attempts_in org_id log' = attempts_in org_id log + (a - attempt + 1) \<and>
          reloads_in log' = reloads_in log + (a - attempt))"
proof (induction L max_attempts org_id attempt page last_err last_status log rule: fetch_attempts.induct)
  case (1 L max_attempts org_id attempt page last_err last_status log)
  from "1.prems"(2) have le: "\<not> attempt > max_attempts" by simp
  show ?case
  proof (cases "attempt_loop L page org_id (JStr []) [] None log")
    case None
    with "1.prems" le show ?thesis
      by (subst (asm) fetch_attempts.simps) simp
  next
    case (Some x)
    then obtain r p1 l1 where x: "attempt_loop L page org_id (JStr []) [] None log = Some (r, p1, l1)"
      by (cases x) auto
    note cnt = attempt_loop_counts [OF x]
    show ?thesis
    proof (cases r)
      case (Inr ok)
      then obtain pubs tot where "r = Inr (pubs, tot)" by (cases ok) auto
      with x "1.prems" le cnt show ?thesis
        by (subst (asm) fetch_attempts.simps) auto
    next
      case (Inl bad)
      then obtain e status where r: "r = Inl (e, status)" by (cases bad) auto
      show ?thesis
      proof (cases "attempt < max_attempts")
        case False
        with r x "1.prems" le cnt show ?thesis
          by (subst (asm) fetch_attempts.simps) (auto simp: Let_def)
      next
        case True
        let ?ls = "case status of None \<Rightarrow> last_status | Some s \<Rightarrow> s"
        from True r x "1.prems"(1) le
        have rec: "fetch_attempts L max_attempts org_id (attempt + 1) p1 (Some (str_exn e)) ?ls
                     (l1 @ [Reload]) = Some (res, page', log')"
          by (subst (asm) fetch_attempts.simps) (simp add: Let_def)
        have cnt': "attempts_in org_id (l1 @ [Reload]) = attempts_in org_id log + 1"
                   "reloads_in (l1 @ [Reload]) = reloads_in log + 1"
          using cnt by (simp_all add: attempts_in_def reloads_in_def)
        from True have le': "attempt + 1 \<le> max_attempts" by simp
        from "1.IH" [OF le x refl r refl refl refl refl True rec le']
        show ?thesis
          using cnt' r by (cases res) auto
      qed
    qed
  qed
qed

lemma fetch_all_after_failures_succeeds:
  assumes "\<forall>a\<in>set fails. (\<forall>p\<in>set (fst a). snd p \<noteq> []) \<and> failed_call (snd a)"
      and "\<forall>p\<in>set pages. snd p \<noteq> []"
      and "int (length fails) < max_attempts"
  shows "fetch_all_publications L
           (concat (map failed_attempt fails) @ map page_outcome (pages @ [(items, [])]) @ rest)
           org_id max_attempts
         = Some (FetchOk (concat (map fst pages) @ items) None (int (length fails) + 1), rest,
                 concat (map (\<lambda>a. attempt_events org_id (fst a) @ [Reload]) fails) @
                 attempt_events org_id pages)"
proof -
  from assms(3) have le: "1 + int (length fails) \<le> max_attempts" by simp
  from fetch_attempts_after_failures [OF assms(1) le, of L org_id
         "map page_outcome (pages @ [(items, [])]) @ rest" None JNull "[]"]
  obtain le' ls' where
    "fetch_all_publications L
       (concat (map failed_attempt fails) @ map page_outcome (pages @ [(items, [])]) @ rest)
       org_id max_attempts
     = fetch_attempts L max_attempts org_id (1 + int (length fails))
         (map page_outcome (pages @ [(items, [])]) @ rest) le' ls'
         ([] @ concat (map (\<lambda>a. attempt_events org_id (fst a) @ [Reload]) fails))"
    by (auto simp: fetch_all_publications_def)
  with fetch_attempts_succeeds [OF assms(2) le, of L org_id items rest le' ls'
         "[] @ concat (map (\<lambda>a. attempt_events org_id (fst a) @ [Reload]) fails)"]
  show ?thesis
    by (simp add: add.commute)
qed

lemma fetch_all_all_fail:
  assumes "\<forall>a\<in>set fails. (\<forall>p\<in>set (fst a). snd p \<noteq> []) \<and> failed_call (snd a)"
      and "int (length fails) = max_attempts" and "1 \<le> max_attempts"
  shows "\<exists>err status log.
           fetch_all_publications L (concat (map failed_attempt fails) @ rest) org_id max_attempts
             = Some (FetchFailed err status max_attempts, rest, log)"
proof -
  from assms(2,3) have "fails \<noteq> []" by auto
  then obtain fs a where fails: "fails = fs @ [a]"
    by (cases fails rule: rev_cases) auto
  with assms(1) have fs: "\<forall>a\<in>set fs. (\<forall>p\<in>set (fst a). snd p \<noteq> []) \<and> failed_call (snd a)"
    and a: "\<forall>p\<in>set (fst a). snd p \<noteq> []" "failed_call (snd a)"
    by auto
  from fails assms(2) have le: "1 + int (length fs) \<le> max_attempts"
    and eq: "1 + int (length fs) = max_attempts" by auto
  from fetch_attempts_after_failures [OF fs le, of L org_id "failed_attempt a @ rest" None JNull "[]"]
  obtain le' ls' where step:
    "fetch_attempts L max_attempts org_id 1 (concat (map failed_attempt fs) @ failed_attempt a @ rest)
       None JNull []
     = fetch_attempts L max_attempts org_id (1 + int (length fs)) (failed_attempt a @ rest) le' ls'
         ([] @ concat (map (\<lambda>a. attempt_events org_id (fst a) @ [Reload]) fs))"
    by blast
  from fetch_attempts_gives_up [OF a eq, of L org_id rest le' ls'
         "[] @ concat (map (\<lambda>a. attempt_events org_id (fst a) @ [Reload]) fs)"]
  obtain err status where
    "fetch_attempts L max_attempts org_id (1 + int (length fs)) (failed_attempt a @ rest) le' ls'
         ([] @ concat (map (\<lambda>a. attempt_events org_id (fst a) @ [Reload]) fs))
     = Some (FetchFailed err status (1 + int (length fs)), rest,
             ([] @ concat (map (\<lambda>a. attempt_events org_id (fst a) @ [Reload]) fs)) @
             attempt_events org_id (fst a))"
    by blast
  with step eq fails show ?thesis
    by (simp add: fetch_all_publications_def)
qed

lemma retry_one_unfold:
  assumes "\<forall>v. map_of error_recs org_id = Some v \<longrightarrow> is_dict v"
  shows "\<exists>name role old_message.
           retry_one L clk args error_recs org_id page =
             (case fetch_all_publications L page org_id (max 1 (arg_max_attempts args)) of
                None \<Rightarrow> None
              | Some (res, page', log) \<Rightarrow>
                  Some (Inr (replacement_record org_id name role old_message
                               (utc_iso clk org_id @ ''Z'') (arg_max_attempts args) res),
                        page', log))"
proof -
  let ?old = "py_or (case map_of error_recs org_id of None \<Rightarrow> JNull | Some r \<Rightarrow> r) (JObj [])"
  have "is_dict ?old"
    using assms by (cases "map_of error_recs org_id") (auto simp: py_or_def is_dict_def)
  then obtain kvs where old: "?old = JObj kvs"
    by (cases ?old) (simp_all add: is_dict_def)
  show ?thesis
    unfolding retry_one_def Let_def old
    by (auto split: option.splits)
qed

lemma retry_one_result:
  assumes "retry_one L clk args error_recs org_id page = Some (Inr record, page', log)"
  shows "\<exists>name role old_message res.
           fetch_all_publications L page org_id (max 1 (arg_max_attempts args)) = Some (res, page', log) \<and>
           record = replacement_record org_id name role old_message
                      (utc_iso clk org_id @ ''Z'') (arg_max_attempts args) res"
  using assms
  by (auto simp: retry_one_def Let_def split: sum.splits option.splits prod.splits)

lemma attempt_loop_consumes:
  "attempt_loop L page org_id token pubs tot log = Some (r, page', log') \<Longrightarrow>
     \<exists>consumed. page = consumed @ page'"
proof (induction page arbitrary: token pubs tot log)
  case Nil
  then show ?case by simp
next
  case (Cons x rest)
  let ?step = "case x of Inl e \<Rightarrow> Inl (e, None) | Inr res \<Rightarrow> retry_page L pubs tot res"
  show ?case
  proof (cases ?step)
    case (Inl y)
    with Cons.prems have "page' = rest" by (auto simp: Let_def)
    then show ?thesis by (intro exI [of _ "[x]"]) simp
  next
    case (Inr st)
    show ?thesis
    proof (cases st)
      case (Done p t)
      with Inr Cons.prems have "page' = rest" by (auto simp: Let_def)
      then show ?thesis by (intro exI [of _ "[x]"]) simp
    next
      case (More p t token')
      with Inr Cons.prems
      have "attempt_loop L rest org_id token' p t (log @ [Evaluate org_id token]) = Some (r, page', log')"
        by (simp add: Let_def)
      from Cons.IH [OF this] obtain consumed where "rest = consumed @ page'" by blast
      then show ?thesis by (intro exI [of _ "x # consumed"]) simp
    qed
  qed
qed

lemma fetch_attempts_ok_is_one_fresh_attempt:
  "fetch_attempts L max_attempts org_id attempt page last_err last_status log
     = Some (FetchOk pubs tot a, rest, log') \<Longrightarrow>
   \<exists>earlier start log0.
     page = earlier @ start \<and>
     attempt_loop L start org_id (JStr []) [] None log0 = Some (Inr (pubs, tot), rest, log')"
proof (induction L max_attempts org_id attempt page last_err last_status log rule: fetch_attempts.induct)
  case (1 L max_attempts org_id attempt page last_err last_status log)
  show ?case
  proof (cases "attempt > max_attempts")
    case True
    with "1.prems" show ?thesis by (subst (asm) fetch_attempts.simps) simp
  next
    case le: False
    show ?thesis
    proof (cases "attempt_loop L page org_id (JStr []) [] None log")
      case None
      with "1.prems" le show ?thesis by (subst (asm) fetch_attempts.simps) simp
    next
      case (Some x)
      then obtain r p1 l1 where x: "attempt_loop L page org_id (JStr []) [] None log = Some (r, p1, l1)"
        by (cases x) auto
      show ?thesis
      proof (cases r)
        case (Inr ok)
        then obtain ps t where "r = Inr (ps, t)" by (cases ok) auto
        with x "1.prems" le
        have "attempt_loop L page org_id (JStr []) [] None log = Some (Inr (pubs, tot), rest, log')"
          by (subst (asm) fetch_attempts.simps) auto
        then show ?thesis by (intro exI [of _ "[]"] exI [of _ page] exI [of _ log]) simp
      next
        case (Inl bad)
        then obtain e status where r: "r = Inl (e, status)" by (cases bad) auto
        show ?thesis
        proof (cases "attempt < max_attempts")
          case False
          with r x "1.prems" le show ?thesis
            by (subst (asm) fetch_attempts.simps) (auto simp: Let_def)
        next
          case True
          let ?ls = "case status of None \<Rightarrow> last_status | Some s \<Rightarrow> s"
          from True r x "1.prems"(1) le
          have rec: "fetch_attempts L max_attempts org_id (attempt + 1) p1 (Some (str_exn e)) ?ls
                       (l1 @ [Reload]) = Some (FetchOk pubs tot a, rest, log')"
            by (subst (asm) fetch_attempts.simps) (simp add: Let_def)
          from "1.IH" [OF le x refl r refl refl refl refl True rec]
          obtain earlier start log0 where
            "p1 = earlier @ start"
            "attempt_loop L start org_id (JStr []) [] None log0 = Some (Inr (pubs, tot), rest, log')"
            by blast
          moreover from attempt_loop_consumes [OF x] obtain consumed where "page = consumed @ p1"
            by blast
          ultimately show ?thesis
            by (intro exI [of _ "consumed @ earlier"] exI [of _ start] exI [of _ log0]) simp
        qed
      qed
    qed
  qed
qed

text \<open>
  Claim C10. Each attempt of \<^verbatim>\<open>fetch_all_publications\<close> starts with an empty accumulator.
  For every sequence of outcomes, the items of a successful result are exactly what one
  attempt, started with no items on the responses still unread, collects. In particular,
  after any number (below \<open>max_attempts\<close>) of failed attempts that had already fetched
  pages, the result holds the items of the pages of the successful attempt and nothing of
  the earlier ones.
\<close>

theorem retry_result_has_items_of_successful_attempt_only:
  "(fetch_all_publications L page org_id max_attempts = Some (FetchOk pubs tot a, rest, log) \<longrightarrow>
      (\<exists>earlier start log0.
         page = earlier @ start \<and>
         attempt_loop L start org_id (JStr []) [] None log0 = Some (Inr (pubs, tot), rest, log))) \<and>
   ((\<forall>a\<in>set fails. (\<forall>p\<in>set (fst a). snd p \<noteq> []) \<and> failed_call (snd a)) \<and>
    (\<forall>p\<in>set pages. snd p \<noteq> []) \<and> int (length fails) < max_attempts \<longrightarrow>
      fetch_all_publications L
        (concat (map failed_attempt fails) @ map page_outcome (pages @ [(items, [])]) @ rest')
        org_id max_attempts
      = Some (FetchOk (concat (map fst pages) @ items) None (int (length fails) + 1), rest',
              concat (map (\<lambda>a. attempt_events org_id (fst a) @ [Reload]) fails) @
              attempt_events org_id pages))"
  using fetch_attempts_ok_is_one_fresh_attempt
          [of L max_attempts org_id 1 page None JNull "[]" pubs tot a rest log]
        fetch_all_after_failures_succeeds [of fails pages max_attempts L items rest' org_id]
  by (auto simp: fetch_all_publications_def)

theorem retry_result_has_items_of_successful_attempt_only_witness:
  "failed_call (Inl (PlaywrightError ''Target closed'')) \<and> (1::int) < 4 \<and>
   fetch_all_publications demo_lib
     [Inr (ok_response [pub1] ''t1''), Inl (PlaywrightError ''Target closed''),
      Inr (ok_response [pub1] ''t1''), Inr (ok_response [pub2] [])] ''b'' 4
   = Some (FetchOk [pub1, pub2] None 2, [],
           [Evaluate ''b'' (JStr []), Evaluate ''b'' (JStr ''t1''), Reload,
            Evaluate ''b'' (JStr []), Evaluate ''b'' (JStr ''t1'')])"
proof -
  have f: "failed_call (Inl (PlaywrightError ''Target closed''))" by (simp add: failed_call_def)
  have h: "(\<forall>a\<in>set [([([pub1], ''t1'')], Inl (PlaywrightError ''Target closed''))].
              (\<forall>p\<in>set (fst a). snd p \<noteq> []) \<and> failed_call (snd a)) \<and>
           (\<forall>p\<in>set [([pub1], ''t1'')]. snd p \<noteq> []) \<and>
           int (length [([([pub1], ''t1'')], Inl (PlaywrightError ''Target closed'') :: outcome)]) < 4"
    using f by simp
  note t = retry_result_has_items_of_successful_attempt_only
         [of demo_lib _ "''b''" 4 _ _ _ _ _
             "[([([pub1], ''t1'')], Inl (PlaywrightError ''Target closed''))]"
             "[([pub1], ''t1'')]" "[pub2]" "[]", THEN conjunct2, THEN mp, OF h]
  from t show ?thesis
    using f by (simp add: failed_attempt_def page_outcome_def attempt_events_def)
qed


section \<open>The Retry Patcher's attempts\<close>

lemma attempts_in_Nil: "attempts_in org_id [] = 0" "reloads_in [] = 0"
  by (simp_all add: attempts_in_def reloads_in_def)

lemma retry_one_counts:
  assumes "retry_one L clk args error_recs org_id page = Some (Inr record, page', log)"
  shows "1 \<le> attempts_in org_id log \<and> attempts_in org_id log \<le> max 1 (arg_max_attempts args) \<and>
         reloads_in log = attempts_in org_id log - 1 \<and>
         py_get record ''retried'' JNull = Inr (JBool True) \<and>
         py_get record ''retry_attempts'' JNull = Inr (JInt (attempts_in org_id log)) \<and>
         (has_key record ''error'' \<longrightarrow>
            py_get record ''error'' JNull = Inr (JBool True) \<and>
            attempts_in org_id log = max 1 (arg_max_attempts args)) \<and>
         (has_key record ''error'' \<or> has_key record ''publications'')"
proof -
  from retry_one_result [OF assms] obtain name role old_message res where
    f: "fetch_all_publications L page org_id (max 1 (arg_max_attempts args)) = Some (res, page', log)"
    and r: "record = replacement_record org_id name role old_message
                      (utc_iso clk org_id @ ''Z'') (arg_max_attempts args) res"
    by blast
  have le: "(1::int) \<le> max 1 (arg_max_attempts args)" by simp
  from f have "fetch_attempts L (max 1 (arg_max_attempts args)) org_id 1 page None JNull []
                 = Some (res, page', log)"
    by (simp add: fetch_all_publications_def)
  note c = fetch_attempts_counts [OF this le]
  show ?thesis
  proof (cases res)
    case (FetchOk pubs tot a)
    with c have "1 \<le> a" "a \<le> max 1 (arg_max_attempts args)"
      "attempts_in org_id log = a" "reloads_in log = a - 1"
      by (simp_all add: attempts_in_Nil)
    with FetchOk r show ?thesis
      by (simp add: replacement_record_def)
  next
    case (FetchFailed err status a)
    with c have "a = max 1 (arg_max_attempts args)"
      "attempts_in org_id log = a" "reloads_in log = a - 1"
      by (simp_all add: attempts_in_Nil)
    moreover have "max 1 (arg_max_attempts args) \<noteq> 0" by linarith
    ultimately show ?thesis
      using FetchFailed r by (simp add: replacement_record_def)
  qed
qed

lemma retry_one_succeeds_after_failures:
  assumes "\<forall>a\<in>set fails. (\<forall>p\<in>set (fst a). snd p \<noteq> []) \<and> failed_call (snd a)"
      and "\<forall>p\<in>set pages. snd p \<noteq> []"
      and "int (length fails) < max 1 (arg_max_attempts args)"
      and "\<forall>v. map_of error_recs org_id = Some v \<longrightarrow> is_dict v"
  shows "\<exists>record.
           retry_one L clk args error_recs org_id
             (concat (map failed_attempt fails) @ map page_outcome (pages @ [(items, [])]) @ rest)
           = Some (Inr record, rest,
                   concat (map (\<lambda>a. attempt_events org_id (fst a) @ [Reload]) fails) @
                   attempt_events org_id pages) \<and>
           \<not> has_key record ''error'' \<and>
           py_get record ''publications'' JNull = Inr (JList (concat (map fst pages) @ items)) \<and>
           py_get record ''retried'' JNull = Inr (JBool True) \<and>
           py_get record ''retry_attempts'' JNull = Inr (JInt (int (length fails) + 1))"
proof -
  from retry_one_unfold [OF assms(4), of L clk args
         "concat (map failed_attempt fails) @ map page_outcome (pages @ [(items, [])]) @ rest"]
  obtain name role old_message where
    "retry_one L clk args error_recs org_id
       (concat (map failed_attempt fails) @ map page_outcome (pages @ [(items, [])]) @ rest) =
       (case fetch_all_publications L
               (concat (map failed_attempt fails) @ map page_outcome (pages @ [(items, [])]) @ rest)
               org_id (max 1 (arg_max_attempts args)) of
          None \<Rightarrow> None
        | Some (res, page', log) \<Rightarrow>
            Some (Inr (replacement_record org_id name role old_message
                         (utc_iso clk org_id @ ''Z'') (arg_max_attempts args) res),
                  page', log))"
    by blast
  then show ?thesis
    by (simp only: fetch_all_after_failures_succeeds [OF assms(1,2,3)])
       (simp add: replacement_record_def)
qed

lemma retry_one_all_fail:
  assumes "\<forall>a\<in>set fails. (\<forall>p\<in>set (fst a). snd p \<noteq> []) \<and> failed_call (snd a)"
      and "int (length fails) = max 1 (arg_max_attempts args)"
      and "\<forall>v. map_of error_recs org_id = Some v \<longrightarrow> is_dict v"
  shows "\<exists>record log.
           retry_one L clk args error_recs org_id (concat (map failed_attempt fails) @ rest)
           = Some (Inr record, rest, log) \<and>
           py_get record ''error'' JNull = Inr (JBool True) \<and>
           py_get record ''retried'' JNull = Inr (JBool True) \<and>
           py_get record ''retry_attempts'' JNull = Inr (JInt (max 1 (arg_max_attempts args)))"
proof -
  have le: "(1::int) \<le> max 1 (arg_max_attempts args)" by simp
  from fetch_all_all_fail [OF assms(1,2) le, of L rest org_id]
  obtain err status log where
    f: "fetch_all_publications L (concat (map failed_attempt fails) @ rest) org_id
          (max 1 (arg_max_attempts args))
        = Some (FetchFailed err status (max 1 (arg_max_attempts args)), rest, log)"
    by blast
  from retry_one_unfold [OF assms(3), of L clk args "concat (map failed_attempt fails) @ rest"]
  obtain name role old_message where
    "retry_one L clk args error_recs org_id (concat (map failed_attempt fails) @ rest) =
       (case fetch_all_publications L (concat (map failed_attempt fails) @ rest)
               org_id (max 1 (arg_max_attempts args)) of
          None \<Rightarrow> None
        | Some (res, page', log) \<Rightarrow>
            Some (Inr (replacement_record org_id name role old_message
                         (utc_iso clk org_id @ ''Z'') (arg_max_attempts args) res),
                  page', log))"
    by blast
  moreover have "max 1 (arg_max_attempts args) \<noteq> 0" by linarith
  ultimately show ?thesis
    by (simp only: f) (simp add: replacement_record_def)
qed

lemma fetch_all_attempts_bound:
  assumes "fetch_all_publications L page org_id max_attempts = Some (res, page', log)"
  shows "attempts_in org_id log \<le> max 0 max_attempts"
proof (cases "1 \<le> max_attempts")
  case True
  from assms have "fetch_attempts L max_attempts org_id 1 page None JNull [] = Some (res, page', log)"
    by (simp add: fetch_all_publications_def)
  from fetch_attempts_counts [OF this True] True show ?thesis
    by (cases res) (simp_all add: attempts_in_Nil)
next
  case False
  with assms have "log = []"
    by (simp add: fetch_all_publications_def fetch_attempts.simps)
  then show ?thesis by (simp add: attempts_in_Nil)
qed

text \<open>
  Claim C6, as the code has it. For every unit and every sequence of outcomes,
  \<^verbatim>\<open>fetch_all_publications\<close> makes at most \<open>max_attempts\<close> attempts. \<^verbatim>\<open>main\<close> calls it with
  \<^verbatim>\<open>max(1, args.max_attempts)\<close>, so the retry of a failed unit makes at least one and at
  most that many attempts, with a session refresh between two attempts; the
  replacement record has \<^verbatim>\<open>retried = true\<close> and the number of attempts made; an error
  record has \<^verbatim>\<open>error = true\<close> and is only produced after all attempts. When fewer than the
  allowed number of attempts fail and the next one succeeds, the record is a success record
  with the items of that attempt; when all the allowed attempts fail it is an error record
  with \<^verbatim>\<open>error = true\<close> and \<^verbatim>\<open>retried = true\<close>.
\<close>

theorem retry_attempts_bounded_and_recorded:
  "(fetch_all_publications L page org_id max_attempts = Some (res, page', log) \<longrightarrow>
      attempts_in org_id log \<le> max 0 max_attempts) \<and>
   (retry_one L clk args error_recs org_id page = Some (Inr record, page', log) \<longrightarrow>
      1 \<le> attempts_in org_id log \<and> attempts_in org_id log \<le> max 1 (arg_max_attempts args) \<and>
      reloads_in log = attempts_in org_id log - 1 \<and>
      py_get record ''retried'' JNull = Inr (JBool True) \<and>
      py_get record ''retry_attempts'' JNull = Inr (JInt (attempts_in org_id log)) \<and>
      (has_key record ''error'' \<longrightarrow>
         py_get record ''error'' JNull = Inr (JBool True) \<and>
         attempts_in org_id log = max 1 (arg_max_attempts args)) \<and>
      (has_key record ''error'' \<or> has_key record ''publications'')) \<and>
   ((\<forall>a\<in>set fails. (\<forall>p\<in>set (fst a). snd p \<noteq> []) \<and> failed_call (snd a)) \<and>
    (\<forall>v. map_of error_recs org_id = Some v \<longrightarrow> is_dict v) \<longrightarrow>
      ((\<forall>p\<in>set pages. snd p \<noteq> []) \<and> int (length fails) < max 1 (arg_max_attempts args) \<longrightarrow>
         (\<exists>record.
            retry_one L clk args error_recs org_id
              (concat (map failed_attempt fails) @ map page_outcome (pages @ [(items, [])]) @ rest)
            = Some (Inr record, rest,
                    concat (map (\<lambda>a. attempt_events org_id (fst a) @ [Reload]) fails) @
                    attempt_events org_id pages) \<and>
            \<not> has_key record ''error'' \<and>
            py_get record ''publications'' JNull = Inr (JList (concat (map fst pages) @ items)) \<and>
            py_get record ''retried'' JNull = Inr (JBool True) \<and>
            py_get record ''retry_attempts'' JNull = Inr (JInt (int (length fails) + 1)))) \<and>
      (int (length fails) = max 1 (arg_max_attempts args) \<longrightarrow>
         (\<exists>record log.
            retry_one L clk args error_recs org_id (concat (map failed_attempt fails) @ rest)
            = Some (Inr record, rest, log) \<and>
            py_get record ''error'' JNull = Inr (JBool True) \<and>
            py_get record ''retried'' JNull = Inr (JBool True) \<and>
            py_get record ''retry_attempts'' JNull = Inr (JInt (max 1 (arg_max_attempts args))))))"
proof -
  have a: "retry_one L clk args error_recs org_id page = Some (Inr record, page', log) \<longrightarrow>
      1 \<le> attempts_in org_id log \<and> attempts_in org_id log \<le> max 1 (arg_max_attempts args) \<and>
      reloads_in log = attempts_in org_id log - 1 \<and>
      py_get record ''retried'' JNull = Inr (JBool True) \<and>
      py_get record ''retry_attempts'' JNull = Inr (JInt (attempts_in org_id log)) \<and>
      (has_key record ''error'' \<longrightarrow>
         py_get record ''error'' JNull = Inr (JBool True) \<and>
         attempts_in org_id log = max 1 (arg_max_attempts args)) \<and>
      (has_key record ''error'' \<or> has_key record ''publications'')"
    using retry_one_counts by blast
  show ?thesis
    using a retry_one_succeeds_after_failures [of fails pages args error_recs org_id L clk items rest]
      retry_one_all_fail [of fails args error_recs org_id L clk rest]
      fetch_all_attempts_bound [of L page org_id max_attempts res page' log]
    by blast
qed

theorem retry_attempts_bounded_and_recorded_witness:
  "retry_one demo_lib demo_clock demo_args [(''b'', record_b)] ''b''
     [Inr (ok_response [pub1] ''t1''), Inl (PlaywrightError ''Target closed''),
      Inr (ok_response [pub1] ''t1''), Inr (ok_response [pub2] [])]
   = Some (Inr record_b_retried, [],
           [Evaluate ''b'' (JStr []), Evaluate ''b'' (JStr ''t1''), Reload,
            Evaluate ''b'' (JStr []), Evaluate ''b'' (JStr ''t1'')]) \<and>
   attempts_in ''b'' [Evaluate ''b'' (JStr []), Evaluate ''b'' (JStr ''t1''), Reload,
                     Evaluate ''b'' (JStr []), Evaluate ''b'' (JStr ''t1'')] = 2 \<and>
   py_get record_b_retried ''retry_attempts'' JNull = Inr (JInt 2) \<and>
   has_key record_b_retried ''publications'' \<and>
   (\<exists>record log.
      retry_one demo_lib demo_clock demo_args_once [(''b'', record_b)] ''b'' [Inr response_403]
        = Some (Inr record, [], log) \<and>
      py_get record ''error'' JNull = Inr (JBool True) \<and>
      py_get record ''retried'' JNull = Inr (JBool True) \<and>
      py_get record ''retry_attempts'' JNull = Inr (JInt 1))"
proof -
  let ?log = "[Evaluate ''b'' (JStr []), Evaluate ''b'' (JStr ''t1''), Reload,
               Evaluate ''b'' (JStr []), Evaluate ''b'' (JStr ''t1'')]"
  have e: "retry_one demo_lib demo_clock demo_args [(''b'', record_b)] ''b''
     [Inr (ok_response [pub1] ''t1''), Inl (PlaywrightError ''Target closed''),
      Inr (ok_response [pub1] ''t1''), Inr (ok_response [pub2] [])]
   = Some (Inr record_b_retried, [], ?log)"
    by code_simp
  have n: "attempts_in ''b'' ?log = 2" by code_simp
  have ne: "\<not> has_key record_b_retried ''error''" by code_simp
  note t = retry_attempts_bounded_and_recorded
             [of demo_lib _ "''b''" _ _ "[]" ?log demo_clock demo_args "[(''b'', record_b)]"
                 record_b_retried, THEN conjunct2]
  from t e n have g: "py_get record_b_retried ''retry_attempts'' JNull = Inr (JInt 2)"
    by simp
  from t e ne have p: "has_key record_b_retried ''publications''"
    by blast
  have fc: "failed_call (Inr response_403)"
    by (simp add: failed_call_def reports_failure_def response_403_def)
  have h: "(\<forall>a\<in>set [([], Inr response_403)]. (\<forall>p\<in>set (fst a). snd p \<noteq> []) \<and> failed_call (snd a)) \<and>
           (\<forall>v. map_of [(''b'', record_b)] ''b'' = Some v \<longrightarrow> is_dict v)"
    using fc by (simp add: record_b_def is_dict_def)
  have l: "int (length [([] :: (json list \<times> string) list, Inr response_403 :: outcome)])
             = max 1 (arg_max_attempts demo_args_once)"
    by (simp add: demo_args_once_def)
  from retry_attempts_bounded_and_recorded
         [of demo_lib _ "''b''" _ _ _ _ demo_clock demo_args_once "[(''b'', record_b)]" _
             "[([], Inr response_403)]" _ _ "[]",
          THEN conjunct2, THEN conjunct2, THEN mp, OF h, THEN conjunct2, THEN mp, OF l]
  have f: "\<exists>record log.
      retry_one demo_lib demo_clock demo_args_once [(''b'', record_b)] ''b'' [Inr response_403]
        = Some (Inr record, [], log) \<and>
      py_get record ''error'' JNull = Inr (JBool True) \<and>
      py_get record ''retried'' JNull = Inr (JBool True) \<and>
      py_get record ''retry_attempts'' JNull = Inr (JInt 1)"
    by (simp add: failed_attempt_def demo_args_once_def)
  from e n g p f show ?thesis by blast
qed

text \<open>
  The claim as stated fails for a \<^verbatim>\<open>--max-attempts\<close> below 1: with 0 the unit is still
  attempted once, and the record says so.
\<close>

theorem retry_with_max_attempts_zero_attempts_once:
  "arg_max_attempts demo_args_once = 0 \<and>
   retry_one demo_lib demo_clock demo_args_once [(''b'', record_b)] ''b'' [Inr response_403]
     = Some (Inr (JObj [(''org_id'', JStr ''b''), (''name'', JStr ''Beta''), (''role'', JNull),
                        (''error'', JBool True), (''http_status'', JInt 403),
                        (''message'', JStr ''HTTP 403''),
                        (''extraction_timestamp'', JStr ''2026-01-07T10:00:00Z''),
                        (''retried'', JBool True), (''retry_attempts'', JInt 1)]),
             [], [Evaluate ''b'' (JStr [])]) \<and>
   attempts_in ''b'' [Evaluate ''b'' (JStr [])] = 1"
  by code_simp

text \<open>
  Claim C4 says that the paginator stops at the first response with an empty token or an
  empty batch. \<^verbatim>\<open>fetch_publications_for_entity\<close> does
  (\<open>fetch_publications_for_entity_concatenates_pages\<close> below); \<^verbatim>\<open>fetch_all_publications\<close>
  stops on the empty token only. On an empty page that carries a token, followed by a page
  with one item, it fetches the second page and returns its item, where
  \<^verbatim>\<open>fetch_publications_for_entity\<close> stops after the first call with no items.
\<close>

theorem retry_paginator_continues_past_empty_batch:
  "fetch_all_publications demo_lib [Inr (ok_response [] ''t1''), Inr (ok_response [pub1] [])] ''b'' 4
     = Some (FetchOk [pub1] None 1, [], [Evaluate ''b'' (JStr []), Evaluate ''b'' (JStr ''t1'')]) \<and>
   fetch_publications_for_entity [Inr (ok_response [] ''t1''), Inr (ok_response [pub1] [])] ''b''
       (JStr ''Beta'')
     = Some (JObj [(''org_id'', JStr ''b''), (''name'', JStr ''Beta''), (''publications'', JList []),
                   (''publication_count'', JInt 0)],
             [Inr (ok_response [pub1] [])], [Evaluate ''b'' (JStr [])])"
  by code_simp

text \<open>
  Claim C7 says that a failed record carries an error message. On a response that reports
  HTTP 403 with a JSON body and no \<^verbatim>\<open>error\<close> text, \<^verbatim>\<open>fetch_publications_for_entity\<close>
  returns the error record with \<^verbatim>\<open>message\<close> null; \<^verbatim>\<open>fetch_all_publications\<close> on the same
  response falls back to the message \<^verbatim>\<open>HTTP 403\<close>.
\<close>

theorem entity_error_record_has_null_message:
  "fetch_publications_for_entity [Inr response_403] ''b'' (JStr ''Beta'')
     = Some (JObj [(''org_id'', JStr ''b''), (''name'', JStr ''Beta''), (''error'', JBool True),
                   (''http_status'', JInt 403), (''message'', JNull)],
             [], [Evaluate ''b'' (JStr [])]) \<and>
   fetch_all_publications demo_lib [Inr response_403] ''b'' 1
     = Some (FetchFailed ''HTTP 403'' (JInt 403) 1, [], [Evaluate ''b'' (JStr [])])"
  by code_simp

lemma fetch_publications_for_entity_concatenates_pages:
  assumes "\<forall>p\<in>set pages. snd p \<noteq> [] \<and> fst p \<noteq> []"
      and "snd final = [] \<or> fst final = []"
  shows "fetch_publications_for_entity (map page_outcome (pages @ [final]) @ rest) org_id name
           = Some (JObj [(''org_id'', JStr org_id), (''name'', name),
                         (''publications'', JList (concat (map fst (pages @ [final])))),
                         (''publication_count'',
                            JInt (int (sum_list (map (\<lambda>p. length (fst p)) (pages @ [final])))))],
                   rest,
                   Evaluate org_id (JStr []) # map (\<lambda>p. Evaluate org_id (JStr (snd p))) pages)"
  using fetch_entity_loop_pages [OF assms, of rest org_id name "JStr []" "[]" "[]"]
  by (simp add: fetch_publications_for_entity_def entity_success_record_def length_concat
        comp_def)

lemma entity_page_Return:
  "entity_page org_id name acc result = Inr (Return record) \<Longrightarrow>
     \<exists>status err. record = JObj [(''org_id'', JStr org_id), (''name'', name), (''error'', JBool True),
                                (''http_status'', status), (''message'', err)]"
  by (auto simp: entity_page_def split: sum.splits if_splits)

lemma fetch_entity_loop_record_shape:
  "fetch_entity_loop page org_id name token acc log = Some (record, rest, log') \<Longrightarrow>
     (py_get record ''error'' JNull = Inr (JBool True) \<and> has_key record ''message'' \<and>
      \<not> has_key record ''publications'') \<or>
     (has_key record ''publications'' \<and> \<not> has_key record ''message'' \<and> \<not> has_key record ''error'')"
proof (induction page arbitrary: token acc log)
  case Nil
  then show ?case by simp
next
  case (Cons r page)
  let ?step = "case r of Inl e \<Rightarrow> Inl e | Inr result \<Rightarrow> entity_page org_id name acc result"
  show ?case
  proof (cases ?step)
    case (Inl e)
    with Cons.prems have "record = entity_error_record org_id name e" by (auto simp: Let_def)
    then show ?thesis by (simp add: entity_error_record_def)
  next
    case (Inr st)
    show ?thesis
    proof (cases st)
      case (Return x)
      with Inr Cons.prems have rx: "record = x" by (auto simp: Let_def)
      from Inr Return obtain result where "entity_page org_id name acc result = Inr (Return x)"
        by (cases r) auto
      from entity_page_Return [OF this] rx show ?thesis by auto
    next
      case (Break all_pubs)
      with Inr Cons.prems have "record = entity_success_record org_id name all_pubs"
        by (auto simp: Let_def)
      then show ?thesis by (simp add: entity_success_record_def)
    next
      case (Continue all_pubs token')
      with Inr Cons.prems
      have "fetch_entity_loop page org_id name token' all_pubs (log @ [Evaluate org_id token])
              = Some (record, rest, log')"
        by (simp add: Let_def)
      from Cons.IH [OF this] show ?thesis .
    qed
  qed
qed


section \<open>Writing the patched ledger\<close>

lemma rewrite_fails_keeps_input:
  assumes "fst (rewrite_with_replacements L fs inp out replacements) = Inl e"
  shows "snd (rewrite_with_replacements L fs inp out replacements) inp = fs inp"
proof (cases "fs inp")
  case None
  then show ?thesis by (simp add: rewrite_with_replacements_def)
next
  case (Some original)
  show ?thesis
  proof (cases "out = inp")
    case True
    with Some assms show ?thesis
      by (simp add: rewrite_with_replacements_def)
  next
    case False
    with Some show ?thesis
      by (simp add: rewrite_with_replacements_def Let_def split: prod.splits)
  qed
qed

lemma rewrite_writes_only_output:
  "p \<noteq> out \<Longrightarrow> snd (rewrite_with_replacements L fs inp out replacements) p = fs p"
  by (cases "fs inp") (simp_all add: rewrite_with_replacements_def Let_def split: prod.splits)

lemma rewrite_ok_output_exists:
  "fst (rewrite_with_replacements L fs inp out replacements) = Inr u \<Longrightarrow>
     \<exists>written. snd (rewrite_with_replacements L fs inp out replacements) out = Some written"
  by (cases "fs inp") (auto simp: rewrite_with_replacements_def Let_def split: prod.splits)

lemma digit_char_not_p: "digit_char n \<noteq> CHR ''p''"
proof
  assume "digit_char n = CHR ''p''"
  then have "of_char (digit_char n) = (of_char (CHR ''p'') :: nat)" by simp
  moreover have "(48 + n mod 10) mod 256 = 48 + n mod 10"
    by (rule mod_less) (simp add: less_le_trans [OF add_strict_left_mono [OF mod_less_divisor]])
  ultimately show False by simp
qed

lemma backup_path_not_input: "backup_path clk inp \<noteq> inp"
  by (simp add: backup_path_def add_suffix_def)

lemma backup_path_not_tmp: "backup_path clk inp \<noteq> add_suffix out ''.tmp''"
proof
  assume "backup_path clk inp = add_suffix out ''.tmp''"
  then have "last (backup_path clk inp) = last (add_suffix out ''.tmp'')" by simp
  then show False
    using digit_char_not_p [of "lt_second (local_now clk)"]
    by (simp add: backup_path_def add_suffix_def strftime_compact_def pad2_def)
qed

lemma write_patched_failure:
  assumes "fst (rewrite_with_replacements L fs inp (add_suffix out ''.tmp'') replacements) = Inl e"
  shows "ended (write_patched L clk inplace fs inp out replacements) = Inl e \<and>
         ops (write_patched L clk inplace fs inp out replacements) = [OpWrite (add_suffix out ''.tmp'')] \<and>
         files (write_patched L clk inplace fs inp out replacements) inp = fs inp"
proof -
  obtain r fs1 where rw: "rewrite_with_replacements L fs inp (add_suffix out ''.tmp'') replacements = (r, fs1)"
    by (cases "rewrite_with_replacements L fs inp (add_suffix out ''.tmp'') replacements")
  with assms have r: "r = Inl e" by simp
  from rewrite_fails_keeps_input [OF assms] rw have "fs1 inp = fs inp" by simp
  with rw r show ?thesis
    by (simp add: write_patched_def Let_def)
qed

lemma write_patched_ops:
  "ops (write_patched L clk inplace fs inp out replacements) \<in>
     (if inplace
      then {[OpWrite (add_suffix out ''.tmp'')],
            [OpWrite (add_suffix out ''.tmp''), OpCopy inp (backup_path clk inp)],
            [OpWrite (add_suffix out ''.tmp''), OpCopy inp (backup_path clk inp),
             OpReplace (add_suffix out ''.tmp'') inp]}
      else {[OpWrite (add_suffix out ''.tmp'')],
            [OpWrite (add_suffix out ''.tmp''), OpReplace (add_suffix out ''.tmp'') out]})"
  by (auto simp: write_patched_def Let_def split: prod.splits sum.splits)

lemma write_patched_inplace_done:
  assumes "inplace"
      and "OpReplace (add_suffix out ''.tmp'') inp \<in> set (ops (write_patched L clk inplace fs inp out replacements))"
      and "add_suffix out ''.tmp'' \<noteq> inp"
  shows "fst (rewrite_with_replacements L fs inp (add_suffix out ''.tmp'') replacements) = Inr () \<and>
         files (write_patched L clk inplace fs inp out replacements) (backup_path clk inp) = fs inp \<and>
         files (write_patched L clk inplace fs inp out replacements) inp
           = snd (rewrite_with_replacements L fs inp (add_suffix out ''.tmp'') replacements)
               (add_suffix out ''.tmp'') \<and>
         files (write_patched L clk inplace fs inp out replacements) (add_suffix out ''.tmp'') = None"
proof -
  let ?tmp = "add_suffix out ''.tmp''"
  let ?bak = "backup_path clk inp"
  obtain r fs1 where rw: "rewrite_with_replacements L fs inp ?tmp replacements = (r, fs1)"
    by (cases "rewrite_with_replacements L fs inp ?tmp replacements")
  have keep: "fs1 inp = fs inp"
    using rewrite_writes_only_output [of inp ?tmp L fs inp replacements] assms(3) rw by simp
  show ?thesis
  proof (cases r)
    case (Inl e)
    with rw assms(2) show ?thesis by (simp add: write_patched_def Let_def)
  next
    case (Inr u)
    show ?thesis
    proof (cases "shutil_copy2 fs1 inp ?bak")
      case (Inl e)
      with Inr rw assms(1,2) show ?thesis by (simp add: write_patched_def Let_def)
    next
      case copy: (Inr fs2)
      then obtain content where c: "fs1 inp = Some content" and fs2: "fs2 = fs1(?bak \<mapsto> content)"
        by (auto simp: shutil_copy2_def split: option.splits if_splits)
      show ?thesis
      proof (cases "os_replace fs2 ?tmp inp")
        case (Inl e)
        with copy Inr rw assms(1,2) show ?thesis by (simp add: write_patched_def Let_def)
      next
        case (Inr fs3)
        with assms(3) obtain patched where p: "fs2 ?tmp = Some patched"
          and fs3: "fs3 = (fs2(?tmp := None))(inp \<mapsto> patched)"
          by (auto simp: os_replace_def split: option.splits)
        have res: "files (write_patched L clk inplace fs inp out replacements) = fs3"
          using Inr copy \<open>r = Inr u\<close> rw assms(1) by (simp add: write_patched_def Let_def)
        have b1: "?bak \<noteq> inp" by (rule backup_path_not_input)
        have b2: "?bak \<noteq> ?tmp" by (rule backup_path_not_tmp)
        from b2 fs2 p have p1: "fs1 ?tmp = Some patched" by (simp split: if_splits)
        from fs3 fs2 b1 b2 c keep have "fs3 ?bak = fs inp" by simp
        moreover from fs3 p1 rw have "fs3 inp = snd (rewrite_with_replacements L fs inp ?tmp replacements) ?tmp"
          by simp
        moreover from fs3 assms(3) have "fs3 ?tmp = None" by simp
        ultimately show ?thesis
          using res rw \<open>r = Inr u\<close> by simp
      qed
    qed
  qed
qed

lemma write_patched_output_done:
  assumes "\<not> inplace"
      and "OpReplace (add_suffix out ''.tmp'') out \<in> set (ops (write_patched L clk inplace fs inp out replacements))"
  shows "fst (rewrite_with_replacements L fs inp (add_suffix out ''.tmp'') replacements) = Inr () \<and>
         files (write_patched L clk inplace fs inp out replacements) out
           = snd (rewrite_with_replacements L fs inp (add_suffix out ''.tmp'') replacements)
               (add_suffix out ''.tmp'')"
proof -
  let ?tmp = "add_suffix out ''.tmp''"
  obtain r fs1 where rw: "rewrite_with_replacements L fs inp ?tmp replacements = (r, fs1)"
    by (cases "rewrite_with_replacements L fs inp ?tmp replacements")
  have ne: "?tmp \<noteq> out" by (simp add: add_suffix_def)
  show ?thesis
  proof (cases r)
    case (Inl e)
    with rw assms show ?thesis by (simp add: write_patched_def Let_def)
  next
    case (Inr u)
    show ?thesis
    proof (cases "os_replace fs1 ?tmp out")
      case (Inl e)
      with Inr rw assms show ?thesis by (simp add: write_patched_def Let_def)
    next
      case rep: (Inr fs2)
      with ne obtain patched where p: "fs1 ?tmp = Some patched"
        and fs2: "fs2 = (fs1(?tmp := None))(out \<mapsto> patched)"
        by (auto simp: os_replace_def split: option.splits)
      have "files (write_patched L clk inplace fs inp out replacements) = fs2"
        using rep Inr rw assms(1) by (simp add: write_patched_def Let_def)
      with fs2 p rw Inr show ?thesis by simp
    qed
  qed
qed

text \<open>
  The steps of a run, whatever the input: the file operations are an initial part of
  write the temporary file, (in place) copy the input to the backup path, rename the
  temporary file over the destination. A rewrite that fails ends the run with nothing
  renamed and the input file as it was. Where the rename has happened, the destination
  holds what was written to the temporary file, and, the temporary path being another
  path than the input, the backup holds the original.
\<close>

lemma write_patched_steps:
  "ops (write_patched L clk inplace fs inp out replacements) \<in>
     (if inplace
      then {[OpWrite (add_suffix out ''.tmp'')],
            [OpWrite (add_suffix out ''.tmp''), OpCopy inp (backup_path clk inp)],
            [OpWrite (add_suffix out ''.tmp''), OpCopy inp (backup_path clk inp),
             OpReplace (add_suffix out ''.tmp'') inp]}
      else {[OpWrite (add_suffix out ''.tmp'')],
            [OpWrite (add_suffix out ''.tmp''), OpReplace (add_suffix out ''.tmp'') out]}) \<and>
   (fst (rewrite_with_replacements L fs inp (add_suffix out ''.tmp'') replacements) = Inl e \<longrightarrow>
      ended (write_patched L clk inplace fs inp out replacements) = Inl e \<and>
      ops (write_patched L clk inplace fs inp out replacements) = [OpWrite (add_suffix out ''.tmp'')] \<and>
      files (write_patched L clk inplace fs inp out replacements) inp = fs inp) \<and>
   (inplace \<and>
    OpReplace (add_suffix out ''.tmp'') inp
      \<in> set (ops (write_patched L clk inplace fs inp out replacements)) \<and>
    add_suffix out ''.tmp'' \<noteq> inp \<longrightarrow>
      fst (rewrite_with_replacements L fs inp (add_suffix out ''.tmp'') replacements) = Inr () \<and>
      files (write_patched L clk inplace fs inp out replacements) (backup_path clk inp) = fs inp \<and>
      files (write_patched L clk inplace fs inp out replacements) inp
        = snd (rewrite_with_replacements L fs inp (add_suffix out ''.tmp'') replacements)
            (add_suffix out ''.tmp'') \<and>
      files (write_patched L clk inplace fs inp out replacements) (add_suffix out ''.tmp'') = None) \<and>
   (\<not> inplace \<and>
    OpReplace (add_suffix out ''.tmp'') out
      \<in> set (ops (write_patched L clk inplace fs inp out replacements)) \<longrightarrow>
      fst (rewrite_with_replacements L fs inp (add_suffix out ''.tmp'') replacements) = Inr () \<and>
      files (write_patched L clk inplace fs inp out replacements) out
        = snd (rewrite_with_replacements L fs inp (add_suffix out ''.tmp'') replacements)
            (add_suffix out ''.tmp''))"
  using write_patched_ops [of L clk inplace fs inp out replacements]
        write_patched_failure [of L fs inp out replacements e clk inplace]
        write_patched_inplace_done [of inplace out inp L clk fs replacements]
        write_patched_output_done [of inplace out L clk fs inp replacements]
  by blast

lemma write_patched_steps_example:
  "ops (write_patched demo_lib demo_clock True (demo_fs [line_a, line_b, line_c]) demo_input
          (patched_path demo_input) demo_replacements)
     = [OpWrite ''raw/epo_publications_2026-01-06_patched.jsonl.tmp'',
        OpCopy demo_input ''raw/epo_publications_2026-01-06.jsonl.bak-20260107-100000'',
        OpReplace ''raw/epo_publications_2026-01-06_patched.jsonl.tmp'' demo_input] \<and>
   files (write_patched demo_lib demo_clock True (demo_fs [line_a, line_b, line_c]) demo_input
            (patched_path demo_input) demo_replacements)
         ''raw/epo_publications_2026-01-06.jsonl.bak-20260107-100000''
     = Some [line_a, line_b, line_c] \<and>
   files (write_patched demo_lib demo_clock True (demo_fs [line_a, line_b, line_c]) demo_input
            (patched_path demo_input) demo_replacements) demo_input
     = Some [line_a, dumps record_b_retried @ nl, line_c] \<and>
   fst (rewrite_with_replacements demo_lib (demo_fs [line_a, line_cut, line_c]) demo_input
          (add_suffix (patched_path demo_input) ''.tmp'') demo_replacements) = Inl JSONDecodeError \<and>
   ops (write_patched demo_lib demo_clock True (demo_fs [line_a, line_cut, line_c]) demo_input
          (patched_path demo_input) demo_replacements)
     = [OpWrite ''raw/epo_publications_2026-01-06_patched.jsonl.tmp''] \<and>
   files (write_patched demo_lib demo_clock True (demo_fs [line_a, line_cut, line_c]) demo_input
            (patched_path demo_input) demo_replacements) demo_input
     = Some [line_a, line_cut, line_c]"
proof -
  let ?ok = "demo_fs [line_a, line_b, line_c]"
  let ?bad = "demo_fs [line_a, line_cut, line_c]"
  let ?out = "patched_path demo_input"
  have tmp: "add_suffix ?out ''.tmp'' = ''raw/epo_publications_2026-01-06_patched.jsonl.tmp''"
    by code_simp
  have bak: "backup_path demo_clock demo_input
               = ''raw/epo_publications_2026-01-06.jsonl.bak-20260107-100000''"
    by code_simp
  have ne: "add_suffix ?out ''.tmp'' \<noteq> demo_input" by code_simp
  have o1: "ops (write_patched demo_lib demo_clock True ?ok demo_input ?out demo_replacements)
     = [OpWrite ''raw/epo_publications_2026-01-06_patched.jsonl.tmp'',
        OpCopy demo_input ''raw/epo_publications_2026-01-06.jsonl.bak-20260107-100000'',
        OpReplace ''raw/epo_publications_2026-01-06_patched.jsonl.tmp'' demo_input]"
    by code_simp
  have w: "snd (rewrite_with_replacements demo_lib ?ok demo_input (add_suffix ?out ''.tmp'')
                  demo_replacements) (add_suffix ?out ''.tmp'')
             = Some [line_a, dumps record_b_retried @ nl, line_c]"
    by code_simp
  have i: "?ok demo_input = Some [line_a, line_b, line_c]"
          "?bad demo_input = Some [line_a, line_cut, line_c]"
    by (simp_all add: demo_fs_def demo_input_def)
  have f: "fst (rewrite_with_replacements demo_lib ?bad demo_input (add_suffix ?out ''.tmp'')
                  demo_replacements) = Inl JSONDecodeError"
    by code_simp
  note t1 = write_patched_steps
              [of demo_lib demo_clock True ?ok demo_input ?out demo_replacements]
  note t2 = write_patched_steps
              [of demo_lib demo_clock True ?bad demo_input ?out demo_replacements JSONDecodeError]
  from t1 o1 ne tmp bak w i
  have a: "files (write_patched demo_lib demo_clock True ?ok demo_input ?out demo_replacements)
             ''raw/epo_publications_2026-01-06.jsonl.bak-20260107-100000'' = Some [line_a, line_b, line_c]"
    and b: "files (write_patched demo_lib demo_clock True ?ok demo_input ?out demo_replacements) demo_input
             = Some [line_a, dumps record_b_retried @ nl, line_c]"
    by simp_all
  from t2 f tmp i
  have c: "ops (write_patched demo_lib demo_clock True ?bad demo_input ?out demo_replacements)
             = [OpWrite ''raw/epo_publications_2026-01-06_patched.jsonl.tmp'']"
    and d: "files (write_patched demo_lib demo_clock True ?bad demo_input ?out demo_replacements) demo_input
             = Some [line_a, line_cut, line_c]"
    by simp_all
  from o1 a b f c d show ?thesis by blast
qed

lemma write_patched_completes:
  assumes "fst (rewrite_with_replacements L fs inp (add_suffix out ''.tmp'') replacements) = Inr ()"
  shows "ops (write_patched L clk inplace fs inp out replacements)
           = (if inplace
              then [OpWrite (add_suffix out ''.tmp''), OpCopy inp (backup_path clk inp),
                    OpReplace (add_suffix out ''.tmp'') inp]
              else [OpWrite (add_suffix out ''.tmp''), OpReplace (add_suffix out ''.tmp'') out])"
proof -
  let ?tmp = "add_suffix out ''.tmp''"
  let ?bak = "backup_path clk inp"
  obtain r fs1 where rw: "rewrite_with_replacements L fs inp ?tmp replacements = (r, fs1)"
    by (cases "rewrite_with_replacements L fs inp ?tmp replacements")
  with assms have r: "r = Inr ()" by simp
  from rewrite_ok_output_exists [OF assms] rw obtain written where w: "fs1 ?tmp = Some written"
    by auto
  have "\<exists>content. fs1 inp = Some content"
  proof (cases "?tmp = inp")
    case True
    with w show ?thesis by simp
  next
    case False
    from rewrite_writes_only_output [OF False [symmetric], of L fs inp replacements] rw
    have "fs1 inp = fs inp" by simp
    moreover from assms have "fs inp \<noteq> None"
      by (cases "fs inp") (simp_all add: rewrite_with_replacements_def)
    ultimately show ?thesis by auto
  qed
  then obtain content where c: "fs1 inp = Some content" by blast
  have b1: "inp \<noteq> ?bak" using backup_path_not_input [of clk inp] by simp
  have b2: "?bak \<noteq> ?tmp" by (rule backup_path_not_tmp)
  show ?thesis
    using rw r w c b1 b2
    by (simp add: write_patched_def Let_def shutil_copy2_def os_replace_def)
qed

text \<open>
  Claim C2 says that the original ledger is never lost: the patched content goes to a
  temporary path first, and in place a backup of the original is taken before the rename.
  The temporary path is the output path with \<^verbatim>\<open>.tmp\<close> added, and nothing keeps it apart
  from the input path. On an in-place run whose input is such a file (the temporary file a
  run has left behind) with the output path it belongs to, opening the temporary file for
  writing empties the input before a line is read: the run ends without an error, the
  ledger and its backup are both empty, and the records are gone.
\<close>

theorem inplace_patch_of_leftover_temp_file_empties_ledger:
  "add_suffix leftover_output ''.tmp'' = leftover_input \<and>
   leftover_fs leftover_input = Some [line_a, line_b, line_c] \<and>
   ended (write_patched demo_lib demo_clock True leftover_fs leftover_input leftover_output
            demo_replacements)
     = Inr \<lparr> stat_lines = 0, stat_parsed = 0, stat_org_ids = [], stat_error_count = 0,
             stat_missing_pubs_key = 0 \<rparr> \<and>
   ops (write_patched demo_lib demo_clock True leftover_fs leftover_input leftover_output
          demo_replacements)
     = [OpWrite leftover_input,
        OpCopy leftover_input ''raw/epo_publications_2026-01-06.jsonl.tmp.bak-20260107-100000'',
        OpReplace leftover_input leftover_input] \<and>
   files (write_patched demo_lib demo_clock True leftover_fs leftover_input leftover_output
            demo_replacements) leftover_input = Some [] \<and>
   files (write_patched demo_lib demo_clock True leftover_fs leftover_input leftover_output
            demo_replacements) ''raw/epo_publications_2026-01-06.jsonl.tmp.bak-20260107-100000''
     = Some [] \<and>
   map_option (\<lambda>r. (mr_ended r, mr_files r leftover_input, mr_ops r))
     (retry_main demo_lib demo_clock leftover_args leftover_fs
        [Inr (ok_response [pub1] ''t1''), Inr (ok_response [pub2] [])])
     = Some (Inr (Some \<lparr> stat_lines = 0, stat_parsed = 0, stat_org_ids = [], stat_error_count = 0,
                           stat_missing_pubs_key = 0 \<rparr>),
             Some [],
             [OpWrite leftover_input,
              OpCopy leftover_input ''raw/epo_publications_2026-01-06.jsonl.tmp.bak-20260107-100000'',
              OpReplace leftover_input leftover_input])"
  by code_simp

end
